theory Spec2Isabelle
  imports Main "HOL-Library.Multiset"
begin

section \<open>The environment: files, faults, console, clock\<close>

text \<open>
  The persistence layer is JavaScript running on Node: every \<open>await\<close> on the file system
  or on the lock library either yields a value or rejects with an error that carries a
  \<open>code\<close>. The codes the sources test for are \<open>ENOENT\<close> and \<open>EXDEV\<close>; the others stand
  for every other rejection (a disk error, a lock that could not be taken, a lock release
  that was refused, a \<open>JSON.parse\<close> syntax error).
\<close>

datatype error = ENOENT | EXDEV | EIO | ELOCKED | ERELEASED | SyntaxError

fun message :: "error \<Rightarrow> string" where
  "message ENOENT = ''ENOENT: no such file or directory''"
| "message EXDEV = ''EXDEV: cross-device link not permitted''"
| "message EIO = ''EIO: i/o error''"
| "message ELOCKED = ''Lock file is already being held''"
| "message ERELEASED = ''Lock is already released''"
| "message SyntaxError = ''Unexpected token in JSON''"

datatype 'a outcome = Return 'a | Throw error

text \<open>A post of the calendar, with the fields the storage layer reads.\<close>

record post =
  post_id :: string
  date :: string
  time :: "string option"
  isAllDay :: bool
  title :: string

text \<open>A session of the in-memory session table (\<open>token -> { username, role, expires }\<close>).\<close>

record session =
  username :: string
  role :: string
  expires :: nat

text \<open>
  The state a run threads through: the files (path to content), the outcome the
  environment imposes on each successive file-system or lock call (\<open>None\<close>, or an
  exhausted list, lets the call proceed), the console, the value of \<open>Date.now()\<close>, the
  successive values of \<open>Math.random().toString(36).slice(2, 8)\<close>, and the module-level
  variables of \<open>db-cache.js\<close> (\<open>postsCache\<close>, \<open>cacheVersion\<close>, \<open>writeInProgress\<close>) and
  of the auth middleware (\<open>sessions\<close>, \<open>sessionLock\<close>).
  \<open>writeInProgress\<close> is \<open>None\<close> for \<open>null\<close> and \<open>Some e\<close> for a promise left behind
  rejected with \<open>e\<close>; the \<open>Map\<close> of sessions is a list of pairs in insertion order.
\<close>

record world =
  files :: "string \<rightharpoonup> string"
  faults :: "error option list"
  console :: "string list"
  clock :: nat
  random :: "string list"
  postsCache :: "post list option"
  cacheVersion :: nat
  writeInProgress :: "error option"
  sessions :: "(string \<times> session) list"
  sessionLock_locked :: bool
  sessionLock_queue :: nat

type_synonym 'a io = "world \<Rightarrow> 'a outcome \<times> world"

definition io_return :: "'a \<Rightarrow> 'a io" where
  "io_return x = (\<lambda>w. (Return x, w))"

definition io_throw :: "error \<Rightarrow> 'a io" where
  "io_throw e = (\<lambda>w. (Throw e, w))"

definition io_bind :: "'a io \<Rightarrow> ('a \<Rightarrow> 'b io) \<Rightarrow> 'b io" where
  "io_bind m f = (\<lambda>w. case m w of (Return x, w') \<Rightarrow> f x w' | (Throw e, w') \<Rightarrow> (Throw e, w'))"

text \<open>\<open>try { m } catch (err) { h err }\<close>\<close>

definition io_catch :: "'a io \<Rightarrow> (error \<Rightarrow> 'a io) \<Rightarrow> 'a io" where
  "io_catch m h = (\<lambda>w. case m w of (Return x, w') \<Rightarrow> (Return x, w') | (Throw e, w') \<Rightarrow> h e w')"

text \<open>
  \<open>try { m } finally { fin }\<close>: the finaliser runs on both exits; when it throws, its
  error replaces the outcome of the body.
\<close>

definition io_finally :: "'a io \<Rightarrow> unit io \<Rightarrow> 'a io" where
  "io_finally m fin = (\<lambda>w. case m w of (r, w') \<Rightarrow>
     (case fin w' of (Return u, w'') \<Rightarrow> (r, w'') | (Throw e, w'') \<Rightarrow> (Throw e, w'')))"

definition console_log :: "string \<Rightarrow> unit io" where
  "console_log s = (\<lambda>w. (Return (), w\<lparr>console := console w @ [s]\<rparr>))"

text \<open>Every call into \<open>fs\<close> or \<open>proper-lockfile\<close> first takes the next imposed outcome.\<close>

definition fault :: "world \<Rightarrow> error option \<times> world" where
  "fault w = (case faults w of [] \<Rightarrow> (None, w) | f # fs \<Rightarrow> (f, w\<lparr>faults := fs\<rparr>))"

definition syscall :: "(world \<Rightarrow> 'a outcome \<times> world) \<Rightarrow> 'a io" where
  "syscall act = (\<lambda>w. case fault w of (Some e, w') \<Rightarrow> (Throw e, w') | (None, w') \<Rightarrow> act w')"

definition readFile :: "string \<Rightarrow> string io" where
  "readFile p = syscall (\<lambda>w. case files w p of None \<Rightarrow> (Throw ENOENT, w) | Some d \<Rightarrow> (Return d, w))"

definition writeFile :: "string \<Rightarrow> string \<Rightarrow> unit io" where
  "writeFile p d = syscall (\<lambda>w. (Return (), w\<lparr>files := (files w)(p \<mapsto> d)\<rparr>))"

definition appendFile :: "string \<Rightarrow> string \<Rightarrow> unit io" where
  "appendFile p d = syscall (\<lambda>w. (Return (),
     w\<lparr>files := (files w)(p \<mapsto> (case files w p of None \<Rightarrow> d | Some old \<Rightarrow> old @ d))\<rparr>))"

definition copyFile :: "string \<Rightarrow> string \<Rightarrow> unit io" where
  "copyFile src dst = syscall (\<lambda>w. case files w src of None \<Rightarrow> (Throw ENOENT, w)
     | Some d \<Rightarrow> (Return (), w\<lparr>files := (files w)(dst \<mapsto> d)\<rparr>))"

definition rename :: "string \<Rightarrow> string \<Rightarrow> unit io" where
  "rename src dst = syscall (\<lambda>w. case files w src of None \<Rightarrow> (Throw ENOENT, w)
     | Some d \<Rightarrow> (Return (), w\<lparr>files := ((files w)(src := None))(dst \<mapsto> d)\<rparr>))"

definition unlink :: "string \<Rightarrow> unit io" where
  "unlink p = syscall (\<lambda>w. case files w p of None \<Rightarrow> (Throw ENOENT, w)
     | Some d \<Rightarrow> (Return (), w\<lparr>files := (files w)(p := None)\<rparr>))"

definition access :: "string \<Rightarrow> unit io" where
  "access p = syscall (\<lambda>w. case files w p of None \<Rightarrow> (Throw ENOENT, w) | Some d \<Rightarrow> (Return (), w))"

text \<open>Directories are not tracked: \<open>mkdir(dir, { recursive: true })\<close> only succeeds or fails.\<close>

definition mkdir :: "string \<Rightarrow> unit io" where
  "mkdir dir = syscall (\<lambda>w. (Return (), w))"

text \<open>
  \<open>lockfile.lock(path, options)\<close> resolves to a release function or rejects once its
  retries are used up; the release function may reject too (a lock that went stale and
  was taken over). Neither touches the files of the store.
\<close>

definition lockfile_lock :: "string \<Rightarrow> unit io" where
  "lockfile_lock p = syscall (\<lambda>w. (Return (), w))"

definition release :: "unit io" where
  "release = syscall (\<lambda>w. (Return (), w))"

section \<open>The document store (\<open>utils/db.js\<close>)\<close>

text \<open>
  The built-ins the store calls and this repository does not define are parameters:
  the SHA-256 hex digest of a text, \<open>JSON.stringify(data, null, 2)\<close> and \<open>JSON.parse\<close>
  (\<open>None\<close> when it throws a syntax error), for documents of type \<open>'a\<close>.
\<close>

record 'a json_lib =
  sha256_hex :: "string \<Rightarrow> string"
  JSON_stringify :: "'a \<Rightarrow> string"
  JSON_parse :: "string \<Rightarrow> 'a option"

definition JSON_parse_io :: "'a json_lib \<Rightarrow> string \<Rightarrow> 'a io" where
  "JSON_parse_io L s = (case JSON_parse L s of None \<Rightarrow> io_throw SyntaxError | Some v \<Rightarrow> io_return v)"

text \<open>\<open>data || dflt\<close> on a string: the empty string is falsy.\<close>

definition or_default :: "string \<Rightarrow> string \<Rightarrow> string" where
  "or_default data dflt = (if data = [] then dflt else data)"

text \<open>\<open>String.prototype.trim\<close>, on the ASCII white space and line terminators.\<close>

definition is_space :: "char \<Rightarrow> bool" where
  "is_space c = (c = CHR '' '' \<or> c = CHR 0x09 \<or> c = CHR 0x0A \<or> c = CHR 0x0B \<or> c = CHR 0x0C \<or> c = CHR 0x0D)"

definition trim :: "string \<Rightarrow> string" where
  "trim s = rev (dropWhile is_space (rev (dropWhile is_space s)))"

text \<open>\<open>path.dirname\<close> and \<open>path.basename\<close> on a slash-separated path without a trailing slash.\<close>

definition basename :: "string \<Rightarrow> string" where
  "basename p = rev (takeWhile (\<lambda>c. c \<noteq> CHR ''/'') (rev p))"

definition dirname :: "string \<Rightarrow> string" where
  "dirname p = (if CHR ''/'' \<notin> set p then ''.''
     else (let d = rev (tl (dropWhile (\<lambda>c. c \<noteq> CHR ''/'') (rev p))) in if d = [] then ''/'' else d))"

text \<open>\<open>Number.prototype.toString(radix)\<close> on a natural number, for radix 10 and 36.\<close>

definition digit_char :: "nat \<Rightarrow> char" where
  "digit_char d = ''0123456789abcdefghijklmnopqrstuvwxyz'' ! d"

function toString_radix :: "nat \<Rightarrow> nat \<Rightarrow> string" where
  "toString_radix b n =
     (if b < 2 \<or> n < b then [digit_char n] else toString_radix b (n div b) @ [digit_char (n mod b)])"
  by pat_completeness auto
termination
  by (relation "measure (\<lambda>(b, n). n)") auto

declare toString_radix.simps [simp del]

text \<open>
  \<open>genId\<close>: \<open>Date.now().toString(36) + '-' + Math.random().toString(36).slice(2, 8)\<close>.
  An exhausted supply stands for \<open>Math.random()\<close> returning 0, whose slice is empty.
\<close>

definition genId :: "world \<Rightarrow> string \<times> world" where
  "genId w = (case random w of
       [] \<Rightarrow> (toString_radix 36 (clock w) @ ''-'', w)
     | r # rs \<Rightarrow> (toString_radix 36 (clock w) @ ''-'' @ r, w\<lparr>random := rs\<rparr>))"

text \<open>
  \<open>readJSON\<close>. The two inner \<open>try\<close> blocks yield \<open>Some v\<close> when the function returns
  \<open>v\<close> from inside them and \<open>None\<close> when control falls through to the parse of the
  primary data. The result of \<open>readJSON\<close> itself is \<open>None\<close> for the \<open>null\<close> of a missing
  file.
\<close>

definition readJSON_backup :: "'a json_lib \<Rightarrow> string \<Rightarrow> 'a option io" where
  "readJSON_backup L filePath =
     io_catch
       (io_bind (readFile (filePath @ ''.backup'')) (\<lambda>backupData.
        io_bind (console_log (''Restored '' @ filePath @ '' from backup'')) (\<lambda>_.
        io_bind (JSON_parse_io L (or_default backupData ''null'')) (\<lambda>v.
        io_return (Some v)))))
       (\<lambda>backupErr.
        io_bind (console_log ''No backup available, using potentially corrupted data'') (\<lambda>_.
        io_return None))"

definition readJSON_verify :: "'a json_lib \<Rightarrow> string \<Rightarrow> string \<Rightarrow> 'a option io" where
  "readJSON_verify L filePath data =
     io_catch
       (io_bind (readFile (filePath @ ''.sha256'')) (\<lambda>stored.
        if trim stored \<noteq> sha256_hex L data
        then io_bind (console_log (''CHECKSUM MISMATCH for '' @ filePath @ ''! Data may be corrupted.''))
               (\<lambda>_. readJSON_backup L filePath)
        else io_return None))
       (\<lambda>checksumErr. io_return None)"

definition readJSON :: "'a json_lib \<Rightarrow> string \<Rightarrow> 'a option io" where
  "readJSON L filePath =
     io_catch
       (io_bind (readFile filePath) (\<lambda>data.
        io_bind (readJSON_verify L filePath data) (\<lambda>restored.
        case restored of
          Some v \<Rightarrow> io_return (Some v)
        | None \<Rightarrow> io_bind (JSON_parse_io L (or_default data ''null'')) (\<lambda>v. io_return (Some v)))))
       (\<lambda>err. if err = ENOENT then io_return None else io_throw err)"

text \<open>
  \<open>writeJSON\<close>. \<open>writeJSON_direct\<close> is the body of the outer \<open>catch\<close> after its log line,
  \<open>writeJSON_rename\<close> the inner \<open>try\<close>/\<open>catch\<close> around the two renames, \<open>writeJSON_locked\<close>
  the outer \<open>try\<close> body after the lock is held, \<open>writeJSON_release\<close> the \<open>finally\<close> block
  when \<open>release\<close> is set. When \<open>lockfile.lock\<close> rejects, \<open>release\<close> stays undefined and
  the \<open>finally\<close> block does nothing.
\<close>

definition writeJSON_direct :: "'a json_lib \<Rightarrow> string \<Rightarrow> 'a \<Rightarrow> error \<Rightarrow> unit io" where
  "writeJSON_direct L filePath data err =
     io_bind (console_log (''writeJSON lock failed for '' @ basename filePath
                @ '', attempting direct write: '' @ message err)) (\<lambda>_.
     io_catch
       (let payload = JSON_stringify L data; checksum = sha256_hex L payload in
        io_bind (writeFile filePath payload) (\<lambda>_.
        writeFile (filePath @ ''.sha256'') checksum))
       (\<lambda>err2.
        io_bind (console_log (''Direct writeJSON also failed: '' @ message err2)) (\<lambda>_.
        io_throw err)))"

definition writeJSON_rename :: "string \<Rightarrow> string \<Rightarrow> string \<Rightarrow> string \<Rightarrow> unit io" where
  "writeJSON_rename filePath tmpPath payload checksum =
     (let checksumTmpPath = tmpPath @ ''.sha256'' in
      io_catch
        (io_bind (rename tmpPath filePath) (\<lambda>_.
         rename checksumTmpPath (filePath @ ''.sha256'')))
        (\<lambda>err.
         if err = EXDEV then
           io_bind (copyFile tmpPath filePath) (\<lambda>_.
           io_bind (copyFile checksumTmpPath (filePath @ ''.sha256'')) (\<lambda>_.
           io_bind (unlink tmpPath) (\<lambda>_.
           unlink checksumTmpPath)))
         else if err = ENOENT then
           io_bind (writeFile filePath payload) (\<lambda>_.
           writeFile (filePath @ ''.sha256'') checksum)
         else io_throw err))"

definition writeJSON_locked :: "'a json_lib \<Rightarrow> string \<Rightarrow> 'a \<Rightarrow> unit io" where
  "writeJSON_locked L filePath data =
     (let payload = JSON_stringify L data; checksum = sha256_hex L payload in
      (\<lambda>w. case genId w of (gid, w1) \<Rightarrow>
        (let tmpPath = filePath @ ''.'' @ gid @ ''.tmp''; checksumTmpPath = tmpPath @ ''.sha256'' in
         io_bind (io_catch (copyFile filePath (filePath @ ''.backup'')) (\<lambda>backupErr. io_return ())) (\<lambda>_.
         io_bind (writeFile tmpPath payload) (\<lambda>_.
         io_bind (writeFile checksumTmpPath checksum) (\<lambda>_.
         writeJSON_rename filePath tmpPath payload checksum)))) w1))"

definition writeJSON_release :: "unit io" where
  "writeJSON_release =
     io_catch release (\<lambda>releaseErr.
       console_log (''Warning: Failed to release lock (might have been stale): '' @ message releaseErr))"

definition writeJSON :: "'a json_lib \<Rightarrow> string \<Rightarrow> 'a \<Rightarrow> unit io" where
  "writeJSON L filePath data =
     io_bind (mkdir (dirname filePath)) (\<lambda>_.
     (\<lambda>w. case lockfile_lock filePath w of
        (Throw err, w1) \<Rightarrow> writeJSON_direct L filePath data err w1
      | (Return _, w1) \<Rightarrow>
          io_finally
            (io_catch (writeJSON_locked L filePath data) (writeJSON_direct L filePath data))
            writeJSON_release w1))"

section \<open>The write-through cache of posts (\<open>utils/db-cache.js\<close>)\<close>

definition POSTS_PATH :: string where
  "POSTS_PATH = ''db/posts.json''"

subsection \<open>The sort applied at write time\<close>

text \<open>\<open>s.split(sep)\<close> for a one-character separator.\<close>

fun split_on :: "char \<Rightarrow> string \<Rightarrow> string list" where
  "split_on sep [] = [[]]"
| "split_on sep (c # cs) =
     (if c = sep then [] # split_on sep cs
      else (case split_on sep cs of [] \<Rightarrow> [[c]] | part # parts \<Rightarrow> (c # part) # parts))"

text \<open>
  \<open>Number(s)\<close> on the parts of a time of day: a run of decimal digits is its value and
  the empty string is 0. \<open>None\<close> is \<open>NaN\<close>. The other numeric forms of JavaScript (a
  sign, a fraction, an exponent, a radix prefix, surrounding blanks) do not occur in the
  \<open>HH:MM\<close> values the time input of the form produces and are not modelled: they read as
  \<open>None\<close> here, and every statement below about the order assumes well-formed times.
\<close>

definition is_digit :: "char \<Rightarrow> bool" where
  "is_digit c = (48 \<le> (of_char c :: nat) \<and> (of_char c :: nat) \<le> 57)"

definition Number :: "string \<Rightarrow> int option" where
  "Number s = (if list_all is_digit s
     then Some (int (foldl (\<lambda>n c. 10 * n + (of_char c - 48)) 0 s)) else None)"

text \<open>
  \<open>const ta = (a.time || '00:00').split(':').map(Number); ta[0] * 60 + ta[1]\<close>: a
  missing, null or empty time counts as midnight; a text without a colon has no
  \<open>ta[1]\<close> and gives \<open>NaN\<close>.
\<close>

definition time_minutes :: "string option \<Rightarrow> int option" where
  "time_minutes t =
     (case map Number (split_on (CHR '':'') (case t of None \<Rightarrow> ''00:00'' | Some s \<Rightarrow> or_default s ''00:00'')) of
        Some h # Some m # rest \<Rightarrow> Some (h * 60 + m)
      | _ \<Rightarrow> None)"

text \<open>
  The comparator written out three times in \<open>db-cache.js\<close>. Its first argument is
  \<open>s \<mapsto> new Date(s).getTime()\<close>, a built-in, with \<open>None\<close> for \<open>NaN\<close> (an invalid date).
  \<open>NaN !== x\<close> is true, so an invalid date makes the comparator return \<open>NaN\<close>.
\<close>

definition compare_posts :: "(string \<Rightarrow> int option) \<Rightarrow> post \<Rightarrow> post \<Rightarrow> int option" where
  "compare_posts getTime a b =
     (case (getTime (date a), getTime (date b)) of
        (Some da, Some db) \<Rightarrow>
          if da \<noteq> db then Some (da - db)
          else (case (time_minutes (time a), time_minutes (time b)) of
                  (Some ta, Some tb) \<Rightarrow> Some (ta - tb)
                | _ \<Rightarrow> None)
      | _ \<Rightarrow> None)"

text \<open>
  \<open>Array.prototype.sort(cmp)\<close>: the sort is stable and reads a \<open>NaN\<close> result as 0. For a
  comparator that is a consistent ordering every stable sort returns the same array;
  it is computed here by inserting from the right, each element before the first one
  it does not compare greater than.
\<close>

fun sort_insert :: "('a \<Rightarrow> 'a \<Rightarrow> int option) \<Rightarrow> 'a \<Rightarrow> 'a list \<Rightarrow> 'a list" where
  "sort_insert cmp x [] = [x]"
| "sort_insert cmp x (y # ys) =
     (if (case cmp x y of Some v \<Rightarrow> 0 < v | None \<Rightarrow> False) then y # sort_insert cmp x ys
      else x # y # ys)"

definition Array_sort :: "('a \<Rightarrow> 'a \<Rightarrow> int option) \<Rightarrow> 'a list \<Rightarrow> 'a list" where
  "Array_sort cmp xs = foldr (sort_insert cmp) xs []"

definition sort_posts :: "(string \<Rightarrow> int option) \<Rightarrow> post list \<Rightarrow> post list" where
  "sort_posts getTime posts = Array_sort (compare_posts getTime) posts"

subsection \<open>Reading and writing the collection\<close>

definition invalidateCache :: "world \<Rightarrow> world" where
  "invalidateCache w = w\<lparr>postsCache := None, cacheVersion := cacheVersion w + 1\<rparr>"

text \<open>\<open>postsCache = posts; cacheVersion++\<close>\<close>

definition set_cache :: "post list \<Rightarrow> unit io" where
  "set_cache posts = (\<lambda>w. (Return (), w\<lparr>postsCache := Some posts, cacheVersion := cacheVersion w + 1\<rparr>))"

text \<open>\<open>JSON.parse(await fs.readFile(POSTS_PATH, 'utf-8') || '[]')\<close>\<close>

definition read_posts_file :: "post list json_lib \<Rightarrow> post list io" where
  "read_posts_file L = io_bind (readFile POSTS_PATH) (\<lambda>data. JSON_parse_io L (or_default data ''[]''))"

definition readPostsOptimized :: "post list json_lib \<Rightarrow> post list io" where
  "readPostsOptimized L = (\<lambda>w.
     case postsCache w of
       Some cached \<Rightarrow> (Return cached, w)
     | None \<Rightarrow>
         io_catch
           (io_bind (read_posts_file L) (\<lambda>posts.
            io_bind (set_cache posts) (\<lambda>_.
            io_return posts)))
           (\<lambda>err. if err = ENOENT then (\<lambda>w'. (Return [], w'\<lparr>postsCache := Some []\<rparr>)) else io_throw err) w)"

text \<open>
  The four writers of \<open>db-cache.js\<close> each repeat the same sequence: serialise, hash,
  write the temporary file \<open>POSTS_PATH + '.tmp.' + Date.now()\<close> and its digest, rename
  both over the collection and its digest.
\<close>

definition write_and_rename :: "post list json_lib \<Rightarrow> post list \<Rightarrow> unit io" where
  "write_and_rename L posts = (\<lambda>w.
     (let payload = JSON_stringify L posts;
          checksum = sha256_hex L payload;
          tmpPath = POSTS_PATH @ ''.tmp.'' @ toString_radix 10 (clock w)
      in io_bind (writeFile tmpPath payload) (\<lambda>_.
         io_bind (writeFile (tmpPath @ ''.sha256'') checksum) (\<lambda>_.
         io_bind (rename tmpPath POSTS_PATH) (\<lambda>_.
         rename (tmpPath @ ''.sha256'') (POSTS_PATH @ ''.sha256''))))) w)"

text \<open>
  \<open>writePostsOptimized\<close>. A call first awaits \<open>writeInProgress\<close>: a promise left behind
  rejected makes the call reject with the same error. The \<open>finally\<close> block awaits
  \<open>release()\<close> before it resets \<open>writeInProgress\<close>, so a rejected release leaves the
  rejected promise of this call in \<open>writeInProgress\<close>.
\<close>

definition writePosts_failed :: "error \<Rightarrow> unit io" where
  "writePosts_failed err =
     io_bind (console_log (''Failed to write posts: '' @ message err)) (\<lambda>_.
     (\<lambda>w. (Throw err, invalidateCache w)))"

definition writePostsOptimized :: "post list json_lib \<Rightarrow> (string \<Rightarrow> int option) \<Rightarrow> post list \<Rightarrow> unit io" where
  "writePostsOptimized L getTime posts = (\<lambda>w.
     case writeInProgress w of
       Some e \<Rightarrow> (Throw e, w)
     | None \<Rightarrow>
        (let sorted = sort_posts getTime posts in
         case lockfile_lock POSTS_PATH w of
           (Throw err, w1) \<Rightarrow> writePosts_failed err w1
         | (Return _, w1) \<Rightarrow>
            (case io_catch (io_bind (write_and_rename L sorted) (\<lambda>_. set_cache sorted)) writePosts_failed w1 of
               (r, w2) \<Rightarrow>
                 (case release w2 of
                    (Return _, w3) \<Rightarrow> (r, w3\<lparr>writeInProgress := None\<rparr>)
                  | (Throw e, w3) \<Rightarrow> (Throw e, w3\<lparr>writeInProgress := Some e\<rparr>)))))"

subsection \<open>The atomic mutators\<close>

text \<open>The result objects \<open>{ success: true, ... }\<close> and \<open>{ success: false, error }\<close>.\<close>

datatype 'a result = Success 'a | Failure string

fun findIndex :: "('a \<Rightarrow> bool) \<Rightarrow> 'a list \<Rightarrow> nat option" where
  "findIndex P [] = None"
| "findIndex P (x # xs) = (if P x then Some 0 else map_option Suc (findIndex P xs))"

text \<open>The \<open>catch\<close> block shared by the three mutators.\<close>

definition mutator_failed :: "error \<Rightarrow> 'a result io" where
  "mutator_failed err = (\<lambda>w. (Return (Failure (message err)), invalidateCache w))"

text \<open>
  \<open>try\<close>/\<open>catch\<close>/\<open>finally\<close> of a mutator: when the lock is not obtained \<open>release\<close> is
  undefined and the \<open>finally\<close> block does nothing; otherwise it awaits \<open>release()\<close>
  unguarded.
\<close>

definition with_posts_lock :: "'a result io \<Rightarrow> 'a result io" where
  "with_posts_lock body = (\<lambda>w.
     case lockfile_lock POSTS_PATH w of
       (Throw err, w1) \<Rightarrow> mutator_failed err w1
     | (Return _, w1) \<Rightarrow> io_finally (io_catch body mutator_failed) release w1)"

text \<open>
  \<open>posts.sort\<close> sorts in place, so \<open>posts\<close> and \<open>sorted\<close> are one array and the
  \<open>updatedPost: posts[idx]\<close> of the result is read after the sort.
\<close>

definition atomicUpdatePost ::
  "post list json_lib \<Rightarrow> (string \<Rightarrow> int option) \<Rightarrow> string \<Rightarrow> (post \<Rightarrow> post) \<Rightarrow> (post \<times> post \<times> post list) result io" where
  "atomicUpdatePost L getTime postId updateFn =
     with_posts_lock
       (io_bind (read_posts_file L) (\<lambda>posts.
        case findIndex (\<lambda>p. post_id p = postId) posts of
          None \<Rightarrow> io_return (Failure ''Post not found'')
        | Some idx \<Rightarrow>
            (let oldPost = posts ! idx;
                 sorted = sort_posts getTime (posts[idx := updateFn (posts ! idx)])
             in io_bind (write_and_rename L sorted) (\<lambda>_.
                io_bind (set_cache sorted) (\<lambda>_.
                io_return (Success (oldPost, sorted ! idx, sorted)))))))"

definition atomicDeletePost :: "post list json_lib \<Rightarrow> string \<Rightarrow> (post \<times> post list) result io" where
  "atomicDeletePost L postId =
     with_posts_lock
       (io_bind (read_posts_file L) (\<lambda>posts.
        case findIndex (\<lambda>p. post_id p = postId) posts of
          None \<Rightarrow> io_return (Failure ''Post not found'')
        | Some idx \<Rightarrow>
            (let deleted = posts ! idx;
                 remaining = take idx posts @ drop (Suc idx) posts
             in io_bind (write_and_rename L remaining) (\<lambda>_.
                io_bind (set_cache remaining) (\<lambda>_.
                io_return (Success (deleted, remaining)))))))"

definition atomicCreatePost ::
  "post list json_lib \<Rightarrow> (string \<Rightarrow> int option) \<Rightarrow> post \<Rightarrow> (post \<times> post list) result io" where
  "atomicCreatePost L getTime newPost =
     with_posts_lock
       (io_bind (read_posts_file L) (\<lambda>posts.
        (let sorted = sort_posts getTime (posts @ [newPost])
         in io_bind (write_and_rename L sorted) (\<lambda>_.
            io_bind (set_cache sorted) (\<lambda>_.
            io_return (Success (newPost, sorted)))))))"

section \<open>The append-only log (\<open>appendLog\<close> in \<open>utils/db.js\<close>)\<close>

text \<open>
  Log entries are plain objects: a list of properties in insertion order (the entries the
  routes pass have no integer-like keys, which JavaScript would enumerate first). Numbers
  are the integers (identifiers and millisecond timestamps).
\<close>

datatype json = JNull | JBool bool | JNumber int | JString string
  | JArray "json list" | JObject "(string \<times> json) list"

text \<open>
  \<open>Object.assign(target, source)\<close>: each property of the source is written to the target,
  replacing the value of a property the target has and keeping its position, or added at
  the end.
\<close>

fun set_property :: "(string \<times> json) list \<Rightarrow> string \<times> json \<Rightarrow> (string \<times> json) list" where
  "set_property [] kv = [kv]"
| "set_property (p # ps) kv = (if fst p = fst kv then kv # ps else p # set_property ps kv)"

definition Object_assign :: "(string \<times> json) list \<Rightarrow> (string \<times> json) list \<Rightarrow> (string \<times> json) list" where
  "Object_assign target source = foldl set_property target source"

text \<open>\<open>JSON.stringify(value)\<close> without indentation.\<close>

definition hex_digit :: "nat \<Rightarrow> char" where
  "hex_digit d = ''0123456789abcdef'' ! d"

definition escape_char :: "char \<Rightarrow> string" where
  "escape_char c =
     (if c = CHR 0x22 then [CHR 0x5C, CHR 0x22]
      else if c = CHR 0x5C then [CHR 0x5C, CHR 0x5C]
      else if c = CHR 0x08 then [CHR 0x5C, CHR ''b'']
      else if c = CHR 0x0C then [CHR 0x5C, CHR ''f'']
      else if c = CHR 0x0A then [CHR 0x5C, CHR ''n'']
      else if c = CHR 0x0D then [CHR 0x5C, CHR ''r'']
      else if c = CHR 0x09 then [CHR 0x5C, CHR ''t'']
      else if (of_char c :: nat) < 32
        then [CHR 0x5C, CHR ''u'', CHR ''0'', CHR ''0'', hex_digit (of_char c div 16), hex_digit (of_char c mod 16)]
      else [c])"

definition quote :: "string \<Rightarrow> string" where
  "quote s = [CHR 0x22] @ concat (map escape_char s) @ [CHR 0x22]"

definition show_int :: "int \<Rightarrow> string" where
  "show_int i = (if i < 0 then ''-'' @ toString_radix 10 (nat (- i)) else toString_radix 10 (nat i))"

fun join_with :: "string \<Rightarrow> string list \<Rightarrow> string" where
  "join_with sep [] = []"
| "join_with sep [x] = x"
| "join_with sep (x # y # ys) = x @ sep @ join_with sep (y # ys)"

primrec stringify :: "json \<Rightarrow> string" where
  "stringify JNull = ''null''"
| "stringify (JBool b) = (if b then ''true'' else ''false'')"
| "stringify (JNumber i) = show_int i"
| "stringify (JString s) = quote s"
| "stringify (JArray vs) = ''['' @ join_with '','' (map stringify vs) @ '']''"
| "stringify (JObject kvs) =
     ''{'' @ join_with '','' (map (\<lambda>kv. quote (fst kv) @ '':'' @ snd kv) (map (map_prod id stringify) kvs)) @ ''}''"

definition DB_DIR :: string where
  "DB_DIR = ''db''"

definition LOGS_ND_PATH :: string where
  "LOGS_ND_PATH = ''db/logs.ndjson''"

definition ensureLogsFile :: "unit io" where
  "ensureLogsFile =
     io_catch
       (io_bind (mkdir DB_DIR) (\<lambda>_.
        io_catch (access LOGS_ND_PATH) (\<lambda>e. writeFile LOGS_ND_PATH [])))
       (\<lambda>err. console_log (''Failed to ensure logs file exists '' @ message err))"

definition appendLog_failed :: "error \<Rightarrow> (string \<times> json) list option io" where
  "appendLog_failed err =
     io_bind (console_log (''appendLog failed: '' @ message err)) (\<lambda>_. io_return None)"

definition appendLog_release :: "unit io" where
  "appendLog_release =
     io_catch release (\<lambda>releaseErr. console_log (''Failed to release log lock: '' @ message releaseErr))"

text \<open>
  \<open>appendLog\<close> returns the record it appended, or \<open>null\<close> (\<open>None\<close>) after a failure.
\<close>

definition appendLog :: "(string \<times> json) list \<Rightarrow> (string \<times> json) list option io" where
  "appendLog entry =
     io_bind ensureLogsFile (\<lambda>_. (\<lambda>w.
       (let now = clock w in
        case genId w of (gid, w1) \<Rightarrow>
          (let out = Object_assign [(''id'', JString gid), (''time'', JNumber (int now))] entry;
               line = stringify (JObject out) @ [CHR 0x0A]
           in case lockfile_lock LOGS_ND_PATH w1 of
                (Throw err, w2) \<Rightarrow> appendLog_failed err w2
              | (Return _, w2) \<Rightarrow>
                  io_finally
                    (io_catch
                       (io_bind (appendFile LOGS_ND_PATH line) (\<lambda>_. io_return (Some out)))
                       appendLog_failed)
                    appendLog_release w2))))"

section \<open>The session store (\<open>middleware/auth.js\<close>)\<close>












section \<open>The properties in the terms of the model\<close>

text \<open>The digest file of a document holds the digest of the bytes the document holds.\<close>

definition digest_matches :: "'a json_lib \<Rightarrow> string \<Rightarrow> world \<Rightarrow> bool" where
  "digest_matches L p w =
     (case files w p of None \<Rightarrow> False | Some d \<Rightarrow> files w (p @ ''.sha256'') = Some (sha256_hex L d))"

text \<open>A mutator call that returned \<open>{ success: true, ... }\<close>.\<close>

definition succeeded :: "'a result outcome \<Rightarrow> bool" where
  "succeeded r = (case r of Return (Success x) \<Rightarrow> True | _ \<Rightarrow> False)"



text \<open>
  The record \<open>appendLog\<close> builds for an entry: \<open>Object.assign({ id: genId(), time: now }, entry)\<close>,
  and the line it appends.
\<close>

definition log_record :: "(string \<times> json) list \<Rightarrow> world \<Rightarrow> (string \<times> json) list" where
  "log_record entry w =
     Object_assign [(''id'', JString (fst (genId w))), (''time'', JNumber (int (clock w)))] entry"

definition log_line :: "(string \<times> json) list \<Rightarrow> string" where
  "log_line out = stringify (JObject out) @ [CHR 0x0A]"

section \<open>Instances and stores for worked examples\<close>

text \<open>
  To run the definitions on concrete inputs the built-ins need instances. These stand
  in for them in the worked examples only: a short checksum for the digest, a printer of
  posts and of session tables for \<open>JSON.stringify\<close>, a parser that reads back exactly the
  texts of the listed documents (anything else is a syntax error), and the epoch
  milliseconds of the two dates of the scenario for \<open>Date\<close>.
\<close>

definition demo_digest :: "string \<Rightarrow> string" where
  "demo_digest s = toString_radix 16 (foldl (\<lambda>h c. (31 * h + of_char c) mod 65521) 7 s)"

definition show_post :: "post \<Rightarrow> string" where
  "show_post p = ''{id:'' @ post_id p @ '',date:'' @ date p @ '',time:''
     @ (case time p of None \<Rightarrow> ''null'' | Some t \<Rightarrow> t)
     @ '',isAllDay:'' @ (if isAllDay p then ''true'' else ''false'') @ '',title:'' @ title p @ ''}''"

definition show_posts :: "post list \<Rightarrow> string" where
  "show_posts ps = ''['' @ join_with '','' (map show_post ps) @ '']''"


definition table_lib :: "('a \<Rightarrow> string) \<Rightarrow> 'a list \<Rightarrow> 'a json_lib" where
  "table_lib enc docs =
     \<lparr>sha256_hex = demo_digest, JSON_stringify = enc, JSON_parse = map_of (map (\<lambda>v. (enc v, v)) docs)\<rparr>"

definition demo_getTime :: "string \<Rightarrow> int option" where
  "demo_getTime = map_of [(''2026-01-01'', 1767225600000), (''2026-01-02'', 1767312000000)]"

definition world0 :: world where
  "world0 = \<lparr>files = Map.empty, faults = [], console = [], clock = 1767312000000, random = [''k3x9qa''],
     postsCache = None, cacheVersion = 0, writeInProgress = None,
     sessions = [], sessionLock_locked = False, sessionLock_queue = 0\<rparr>"

definition post1 :: post where
  "post1 = \<lparr>post_id = ''1'', date = ''2026-01-02'', time = Some ''09:00'', isAllDay = False, title = ''launch''\<rparr>"

definition post2 :: post where
  "post2 = \<lparr>post_id = ''2'', date = ''2026-01-01'', time = Some ''10:00'', isAllDay = False, title = ''teaser''\<rparr>"

definition demo_lib :: "post list json_lib" where
  "demo_lib = table_lib show_posts [[], [post1], [post2, post1]]"

definition world1 :: world where
  "world1 = world0\<lparr>files := [POSTS_PATH \<mapsto> show_posts [post1]]\<rparr>"





text \<open>
  A store where \<open>db/lists.json\<close> does not parse and has no digest file, and a backup that
  parses lies beside it.
\<close>

definition world_unparseable :: world where
  "world_unparseable = world0\<lparr>files := [''db/lists.json'' \<mapsto> ''[{id:1,da'',
     ''db/lists.json.backup'' \<mapsto> show_posts [post1]]\<rparr>"

text \<open>A store where the digest file of \<open>db/lists.json\<close> does not match, with a backup.\<close>

definition world_digest_mismatch :: world where
  "world_digest_mismatch = world0\<lparr>files := [''db/lists.json'' \<mapsto> show_posts [post2, post1],
     ''db/lists.json.sha256'' \<mapsto> ''0000'',
     ''db/lists.json.backup'' \<mapsto> show_posts [post1]]\<rparr>"

text \<open>
  The store of \<open>world1\<close> with its collection cached, where the environment lets the lock,
  the two temporary writes and the two renames of a posts write succeed and refuses the
  release of the lock.
\<close>

definition world_release_refused :: world where
  "world_release_refused = world1\<lparr>faults := [None, None, None, None, None, Some ERELEASED],
     postsCache := Some [post1]\<rparr>"



text \<open>
  A log entry as it could be passed without own id and time, and one as the routes pass
  it, with a \<open>time\<close> of their own.
\<close>

definition entry_plain :: "(string \<times> json) list" where
  "entry_plain = [(''type'', JString ''post''), (''action'', JString ''create'')]"

definition entry_with_time :: "(string \<times> json) list" where
  "entry_with_time = [(''type'', JString ''post''), (''time'', JNumber 5)]"






section \<open>Effects of the primitives\<close>

text \<open>
  Whatever the environment imposes, a call changes the pending outcomes and, when it
  succeeds, the files as stated; nothing else.
\<close>

lemma syscall_cases:
  "syscall act w = (r, w') \<Longrightarrow>
     (\<exists>e fs. r = Throw e \<and> w' = w\<lparr>faults := fs\<rparr>) \<or> (\<exists>fs. act (w\<lparr>faults := fs\<rparr>) = (r, w'))"
  by (auto simp: syscall_def fault_def split: list.splits option.splits) (metis world.surjective world.update_convs(2))+

lemma readFile_Return: "readFile p w = (Return d, w') \<Longrightarrow> files w p = Some d \<and> (\<exists>fs. w' = w\<lparr>faults := fs\<rparr>)"
  unfolding readFile_def by (auto dest!: syscall_cases split: option.splits)

lemma readFile_Throw: "readFile p w = (Throw e, w') \<Longrightarrow> \<exists>fs. w' = w\<lparr>faults := fs\<rparr>"
  unfolding readFile_def by (auto dest!: syscall_cases split: option.splits)

lemma writeFile_Return: "writeFile p d w = (Return u, w') \<Longrightarrow> \<exists>fs. w' = w\<lparr>faults := fs, files := (files w)(p \<mapsto> d)\<rparr>"
  unfolding writeFile_def by (auto dest!: syscall_cases)

lemma writeFile_Throw: "writeFile p d w = (Throw e, w') \<Longrightarrow> \<exists>fs. w' = w\<lparr>faults := fs\<rparr>"
  unfolding writeFile_def by (auto dest!: syscall_cases)

lemma appendFile_Return: "appendFile p d w = (Return u, w') \<Longrightarrow>
   \<exists>fs. w' = w\<lparr>faults := fs, files := (files w)(p \<mapsto> (case files w p of None \<Rightarrow> d | Some old \<Rightarrow> old @ d))\<rparr>"
  unfolding appendFile_def by (auto dest!: syscall_cases)

lemma appendFile_Throw: "appendFile p d w = (Throw e, w') \<Longrightarrow> \<exists>fs. w' = w\<lparr>faults := fs\<rparr>"
  unfolding appendFile_def by (auto dest!: syscall_cases)

lemma copyFile_Return: "copyFile a b w = (Return u, w') \<Longrightarrow>
   \<exists>d fs. files w a = Some d \<and> w' = w\<lparr>faults := fs, files := (files w)(b \<mapsto> d)\<rparr>"
  unfolding copyFile_def by (auto dest!: syscall_cases split: option.splits)

lemma copyFile_Throw: "copyFile a b w = (Throw e, w') \<Longrightarrow> \<exists>fs. w' = w\<lparr>faults := fs\<rparr>"
  unfolding copyFile_def by (auto dest!: syscall_cases split: option.splits)

lemma rename_Return: "rename a b w = (Return u, w') \<Longrightarrow>
   \<exists>d fs. files w a = Some d \<and> w' = w\<lparr>faults := fs, files := ((files w)(a := None))(b \<mapsto> d)\<rparr>"
  unfolding rename_def by (auto dest!: syscall_cases split: option.splits)

lemma rename_Throw: "rename a b w = (Throw e, w') \<Longrightarrow> \<exists>fs. w' = w\<lparr>faults := fs\<rparr>"
  unfolding rename_def by (auto dest!: syscall_cases split: option.splits)

lemma unlink_Return: "unlink a w = (Return u, w') \<Longrightarrow>
   \<exists>fs. w' = w\<lparr>faults := fs, files := (files w)(a := None)\<rparr>"
  unfolding unlink_def by (auto dest!: syscall_cases split: option.splits)

lemma unlink_Throw: "unlink a w = (Throw e, w') \<Longrightarrow> \<exists>fs. w' = w\<lparr>faults := fs\<rparr>"
  unfolding unlink_def by (auto dest!: syscall_cases split: option.splits)

lemma access_any: "access p w = (r, w') \<Longrightarrow> \<exists>fs. w' = w\<lparr>faults := fs\<rparr>"
  unfolding access_def by (auto dest!: syscall_cases split: option.splits)

lemma mkdir_any: "mkdir d w = (r, w') \<Longrightarrow> \<exists>fs. w' = w\<lparr>faults := fs\<rparr>"
  unfolding mkdir_def by (auto dest!: syscall_cases)

lemma lock_any: "lockfile_lock p w = (r, w') \<Longrightarrow> \<exists>fs. w' = w\<lparr>faults := fs\<rparr>"
  unfolding lockfile_lock_def by (auto dest!: syscall_cases)

lemma release_any: "release w = (r, w') \<Longrightarrow> \<exists>fs. w' = w\<lparr>faults := fs\<rparr>"
  unfolding release_def by (auto dest!: syscall_cases)

lemmas io_defs = io_bind_def io_catch_def io_finally_def io_return_def io_throw_def console_log_def

lemmas fs_dest = readFile_Return readFile_Throw writeFile_Return writeFile_Throw
  appendFile_Return appendFile_Throw copyFile_Return copyFile_Throw
  rename_Return rename_Throw unlink_Return unlink_Throw access_any mkdir_any lock_any release_any

lemma writeJSON_direct_Return:
  "writeJSON_direct L p d e w = (Return u, w') \<Longrightarrow>
     files w' p = Some (JSON_stringify L d) \<and>
     files w' (p @ ''.sha256'') = Some (sha256_hex L (JSON_stringify L d))"
  by (auto simp: writeJSON_direct_def io_defs Let_def split: prod.splits outcome.splits dest!: fs_dest)

lemma writeJSON_rename_Return:
  "writeJSON_rename p (p @ ''.'' @ g @ ''.tmp'') pl cs w = (Return u, w') \<Longrightarrow>
   files w (p @ ''.'' @ g @ ''.tmp'') = Some pl \<Longrightarrow>
   files w (p @ ''.'' @ g @ ''.tmp'' @ ''.sha256'') = Some cs \<Longrightarrow>
   files w' p = Some pl \<and> files w' (p @ ''.sha256'') = Some cs"
  by (auto simp: writeJSON_rename_def io_defs Let_def split: prod.splits outcome.splits if_splits dest!: fs_dest)

lemma io_bind_ReturnE:
  assumes "io_bind m f w = (Return y, w'')"
  obtains x w' where "m w = (Return x, w')" "f x w' = (Return y, w'')"
  using assms by (auto simp: io_bind_def split: prod.splits outcome.splits)

lemma genId_frame: "genId w = (g, w1) \<Longrightarrow> \<exists>rs. w1 = w\<lparr>random := rs\<rparr>"
  by (auto simp: genId_def split: list.splits) (metis world.surjective world.update_convs(5))

lemma backup_copy_files:
  "io_catch (copyFile p b) (\<lambda>backupErr. io_return ()) w = (r, w') \<Longrightarrow>
     r = Return () \<and> (files w' = files w \<or> files w' = (files w)(b := files w p))"
  by (auto simp: io_defs split: prod.splits outcome.splits dest!: fs_dest)

lemma writeJSON_locked_Return:
  assumes "writeJSON_locked L p d w = (Return u, w')"
  shows "files w' p = Some (JSON_stringify L d) \<and>
     files w' (p @ ''.sha256'') = Some (sha256_hex L (JSON_stringify L d))"
proof -
  obtain gid w1 where g: "genId w = (gid, w1)" by (cases "genId w")
  let ?tmp = "p @ ''.'' @ gid @ ''.tmp''"
  let ?pl = "JSON_stringify L d"
  let ?cs = "sha256_hex L ?pl"
  from assms g have "io_bind (io_catch (copyFile p (p @ ''.backup'')) (\<lambda>backupErr. io_return ())) (\<lambda>_.
         io_bind (writeFile ?tmp ?pl) (\<lambda>_.
         io_bind (writeFile (?tmp @ ''.sha256'') ?cs) (\<lambda>_.
         writeJSON_rename p ?tmp ?pl ?cs))) w1 = (Return u, w')"
    by (simp add: writeJSON_locked_def Let_def)
  then obtain w2 w3 w4 where
    a: "writeFile ?tmp ?pl w2 = (Return (), w3)" and
    b: "writeFile (?tmp @ ''.sha256'') ?cs w3 = (Return (), w4)" and
    c: "writeJSON_rename p ?tmp ?pl ?cs w4 = (Return u, w')"
    by (elim io_bind_ReturnE) auto
  from a b have "files w4 ?tmp = Some ?pl" "files w4 (?tmp @ ''.sha256'') = Some ?cs"
    by (auto dest!: fs_dest)
  with c show ?thesis
    using writeJSON_rename_Return[of p gid ?pl ?cs w4 u w'] by simp
qed

lemma writeJSON_release_files: "writeJSON_release w = (r, w') \<Longrightarrow> files w' = files w"
  by (auto simp: writeJSON_release_def io_defs split: prod.splits outcome.splits dest!: fs_dest)

lemma writeJSON_Return:
  assumes "writeJSON L p d w = (Return u, w')"
  shows "files w' p = Some (JSON_stringify L d) \<and>
     files w' (p @ ''.sha256'') = Some (sha256_hex L (JSON_stringify L d))"
proof -
  from assms obtain x w0 where l: "(case lockfile_lock p w0 of
        (Throw err, w1) \<Rightarrow> writeJSON_direct L p d err w1
      | (Return _, w1) \<Rightarrow>
          io_finally
            (io_catch (writeJSON_locked L p d) (writeJSON_direct L p d))
            writeJSON_release w1) = (Return u, w')"
    unfolding writeJSON_def by (elim io_bind_ReturnE)
  obtain r1 w1 where lk: "lockfile_lock p w0 = (r1, w1)" by (cases "lockfile_lock p w0")
  show ?thesis
  proof (cases r1)
    case (Throw err)
    with l lk show ?thesis by (auto dest: writeJSON_direct_Return)
  next
    case (Return x)
    with l lk obtain w2 w3 where
      m: "io_catch (writeJSON_locked L p d) (writeJSON_direct L p d) w1 = (Return u, w2)"
      and f: "writeJSON_release w2 = (Return (), w3)" and e: "w' = w3"
      by (auto simp: io_finally_def split: prod.splits outcome.splits)
    from m have "files w2 p = Some (JSON_stringify L d) \<and>
       files w2 (p @ ''.sha256'') = Some (sha256_hex L (JSON_stringify L d))"
      by (auto simp: io_catch_def split: prod.splits outcome.splits
          dest: writeJSON_locked_Return writeJSON_direct_Return)
    with f e show ?thesis by (auto dest: writeJSON_release_files)
  qed
qed

section \<open>What a completed write leaves on disk\<close>

lemma tmp_paths_distinct:
  "P @ ''.tmp.'' @ t \<noteq> P" "P @ ''.tmp.'' @ t \<noteq> P @ ''.sha256''" "P @ ''.tmp.'' @ t \<noteq> P @ ''.backup''"
  "(P @ ''.tmp.'' @ t) @ ''.sha256'' \<noteq> P" "(P @ ''.tmp.'' @ t) @ ''.sha256'' \<noteq> P @ ''.sha256''"
  "(P @ ''.tmp.'' @ t) @ ''.sha256'' \<noteq> P @ ''.backup''"
  "(P @ ''.tmp.'' @ t) @ ''.sha256'' \<noteq> P @ ''.tmp.'' @ t"
  "P @ ''.sha256'' \<noteq> P" "P @ ''.backup'' \<noteq> P" "P @ ''.sha256'' \<noteq> P @ ''.backup''"
  by auto

lemma write_and_rename_Return:
  assumes "write_and_rename L ps w = (Return u, w')"
  shows "\<exists>fs F. w' = w\<lparr>faults := fs, files := F\<rparr> \<and>
     F POSTS_PATH = Some (JSON_stringify L ps) \<and>
     F (POSTS_PATH @ ''.sha256'') = Some (sha256_hex L (JSON_stringify L ps)) \<and>
     F (POSTS_PATH @ ''.backup'') = files w (POSTS_PATH @ ''.backup'')"
proof -
  define tmp where "tmp = POSTS_PATH @ ''.tmp.'' @ toString_radix 10 (clock w)"
  let ?pl = "JSON_stringify L ps"
  let ?cs = "sha256_hex L ?pl"
  have ne: "tmp \<noteq> POSTS_PATH" "tmp \<noteq> POSTS_PATH @ ''.sha256''" "tmp \<noteq> POSTS_PATH @ ''.backup''"
    "tmp @ ''.sha256'' \<noteq> POSTS_PATH" "tmp @ ''.sha256'' \<noteq> POSTS_PATH @ ''.sha256''"
    "tmp @ ''.sha256'' \<noteq> POSTS_PATH @ ''.backup''" "tmp @ ''.sha256'' \<noteq> tmp"
    "POSTS_PATH @ ''.sha256'' \<noteq> POSTS_PATH" "POSTS_PATH @ ''.backup'' \<noteq> POSTS_PATH"
    "POSTS_PATH @ ''.sha256'' \<noteq> POSTS_PATH @ ''.backup''"
    unfolding tmp_def using tmp_paths_distinct by blast+
  from assms have "io_bind (writeFile tmp ?pl) (\<lambda>_.
         io_bind (writeFile (tmp @ ''.sha256'') ?cs) (\<lambda>_.
         io_bind (rename tmp POSTS_PATH) (\<lambda>_.
         rename (tmp @ ''.sha256'') (POSTS_PATH @ ''.sha256'')))) w = (Return u, w')"
    by (simp add: write_and_rename_def Let_def tmp_def)
  then obtain w1 w2 w3 where
    a: "writeFile tmp ?pl w = (Return (), w1)" and
    b: "writeFile (tmp @ ''.sha256'') ?cs w1 = (Return (), w2)" and
    c: "rename tmp POSTS_PATH w2 = (Return (), w3)" and
    d: "rename (tmp @ ''.sha256'') (POSTS_PATH @ ''.sha256'') w3 = (Return u, w')"
    by (elim io_bind_ReturnE) auto
  from a obtain f1 where 1: "w1 = w\<lparr>faults := f1, files := (files w)(tmp \<mapsto> ?pl)\<rparr>"
    by (auto dest!: writeFile_Return)
  from b obtain f2 where 2: "w2 = w1\<lparr>faults := f2, files := (files w1)(tmp @ ''.sha256'' \<mapsto> ?cs)\<rparr>"
    by (auto dest!: writeFile_Return)
  from c obtain f3 d3 where 3: "files w2 tmp = Some d3" "w3 = w2\<lparr>faults := f3, files := ((files w2)(tmp := None))(POSTS_PATH \<mapsto> d3)\<rparr>"
    by (auto dest!: rename_Return)
  from d obtain f4 d4 where 4: "files w3 (tmp @ ''.sha256'') = Some d4"
     "w' = w3\<lparr>faults := f4, files := ((files w3)(tmp @ ''.sha256'' := None))(POSTS_PATH @ ''.sha256'' \<mapsto> d4)\<rparr>"
    by (auto dest!: rename_Return)
  from 1 2 3 4 ne show ?thesis
    by (intro exI[of _ f4] exI[of _ "files w'"]) (simp add: fun_upd_def)
qed

lemma with_posts_lock_Success:
  assumes "with_posts_lock body w = (Return (Success x), w')"
  obtains fs w2 fs' where "body (w\<lparr>faults := fs\<rparr>) = (Return (Success x), w2)" "w' = w2\<lparr>faults := fs'\<rparr>"
  using assms
  by (auto simp: with_posts_lock_def io_finally_def io_catch_def mutator_failed_def
      split: prod.splits outcome.splits dest!: lock_any release_any)

lemma read_posts_file_Return:
  "read_posts_file L w = (Return ps, w') \<Longrightarrow>
     \<exists>d fs. files w POSTS_PATH = Some d \<and> JSON_parse L (or_default d ''[]'') = Some ps \<and> w' = w\<lparr>faults := fs\<rparr>"
  by (auto simp: read_posts_file_def JSON_parse_io_def io_defs split: prod.splits outcome.splits option.splits
      dest!: readFile_Return)

lemma set_cache_Return: "set_cache ps w = (r, w') \<Longrightarrow> r = Return () \<and> files w' = files w \<and> postsCache w' = Some ps"
  by (auto simp: set_cache_def)

lemma digest_matchesI:
  "files w p = Some d \<Longrightarrow> files w (p @ ''.sha256'') = Some (sha256_hex L d) \<Longrightarrow> digest_matches L p w"
  by (simp add: digest_matches_def)

lemma persisted_then_cached:
  assumes "io_bind (write_and_rename L ps) (\<lambda>_. io_bind (set_cache ps) (\<lambda>_. io_return y)) w = (Return z, w')"
  shows "files w' POSTS_PATH = Some (JSON_stringify L ps) \<and>
     files w' (POSTS_PATH @ ''.sha256'') = Some (sha256_hex L (JSON_stringify L ps)) \<and>
     files w' (POSTS_PATH @ ''.backup'') = files w (POSTS_PATH @ ''.backup'') \<and>
     postsCache w' = Some ps \<and> z = y"
proof -
  from assms obtain w1 w2 where a: "write_and_rename L ps w = (Return (), w1)"
    and b: "set_cache ps w1 = (Return (), w2)" and c: "io_return y w2 = (Return z, w')"
    by (elim io_bind_ReturnE) auto
  from write_and_rename_Return[OF a] b c show ?thesis
    by (auto simp: io_return_def set_cache_def)
qed

lemma atomicCreatePost_Success:
  assumes "atomicCreatePost L D np w = (Return (Success x), w')"
  shows "\<exists>d old. files w POSTS_PATH = Some d \<and> JSON_parse L (or_default d ''[]'') = Some old \<and>
     files w' POSTS_PATH = Some (JSON_stringify L (sort_posts D (old @ [np]))) \<and>
     files w' (POSTS_PATH @ ''.sha256'') = Some (sha256_hex L (JSON_stringify L (sort_posts D (old @ [np])))) \<and>
     postsCache w' = Some (sort_posts D (old @ [np])) \<and> x = (np, sort_posts D (old @ [np]))"
proof -
  from assms obtain fs w2 fs' where
    b: "io_bind (read_posts_file L) (\<lambda>posts.
        (let sorted = sort_posts D (posts @ [np])
         in io_bind (write_and_rename L sorted) (\<lambda>_.
            io_bind (set_cache sorted) (\<lambda>_.
            io_return (Success (np, sorted)))))) (w\<lparr>faults := fs\<rparr>) = (Return (Success x), w2)"
    and e: "w' = w2\<lparr>faults := fs'\<rparr>"
    unfolding atomicCreatePost_def by (rule with_posts_lock_Success)
  from b obtain old w1 where r: "read_posts_file L (w\<lparr>faults := fs\<rparr>) = (Return old, w1)"
    and p: "io_bind (write_and_rename L (sort_posts D (old @ [np]))) (\<lambda>_.
            io_bind (set_cache (sort_posts D (old @ [np]))) (\<lambda>_.
            io_return (Success (np, sort_posts D (old @ [np]))))) w1 = (Return (Success x), w2)"
    by (elim io_bind_ReturnE) (simp add: Let_def)
  from read_posts_file_Return[OF r] persisted_then_cached[OF p] e show ?thesis
    by auto
qed

lemma atomicUpdatePost_Success:
  assumes "atomicUpdatePost L D pid f w = (Return (Success x), w')"
  shows "\<exists>d old idx. files w POSTS_PATH = Some d \<and> JSON_parse L (or_default d ''[]'') = Some old \<and>
     findIndex (\<lambda>p. post_id p = pid) old = Some idx \<and>
     files w' POSTS_PATH = Some (JSON_stringify L (sort_posts D (old[idx := f (old ! idx)]))) \<and>
     files w' (POSTS_PATH @ ''.sha256'')
       = Some (sha256_hex L (JSON_stringify L (sort_posts D (old[idx := f (old ! idx)])))) \<and>
     postsCache w' = Some (sort_posts D (old[idx := f (old ! idx)]))"
proof -
  from assms obtain fs w2 fs' where
    b: "io_bind (read_posts_file L) (\<lambda>posts.
        case findIndex (\<lambda>p. post_id p = pid) posts of
          None \<Rightarrow> io_return (Failure ''Post not found'')
        | Some idx \<Rightarrow>
            (let oldPost = posts ! idx;
                 sorted = sort_posts D (posts[idx := f (posts ! idx)])
             in io_bind (write_and_rename L sorted) (\<lambda>_.
                io_bind (set_cache sorted) (\<lambda>_.
                io_return (Success (oldPost, sorted ! idx, sorted)))))) (w\<lparr>faults := fs\<rparr>) = (Return (Success x), w2)"
    and e: "w' = w2\<lparr>faults := fs'\<rparr>"
    unfolding atomicUpdatePost_def by (rule with_posts_lock_Success)
  from b obtain old w1 where r: "read_posts_file L (w\<lparr>faults := fs\<rparr>) = (Return old, w1)"
    and c: "(case findIndex (\<lambda>p. post_id p = pid) old of
          None \<Rightarrow> io_return (Failure ''Post not found'')
        | Some idx \<Rightarrow>
            (let oldPost = old ! idx;
                 sorted = sort_posts D (old[idx := f (old ! idx)])
             in io_bind (write_and_rename L sorted) (\<lambda>_.
                io_bind (set_cache sorted) (\<lambda>_.
                io_return (Success (oldPost, sorted ! idx, sorted)))))) w1 = (Return (Success x), w2)"
    by (elim io_bind_ReturnE)
  from c obtain idx where i: "findIndex (\<lambda>p. post_id p = pid) old = Some idx"
    by (cases "findIndex (\<lambda>p. post_id p = pid) old") (auto simp: io_return_def)
  let ?s = "sort_posts D (old[idx := f (old ! idx)])"
  from c i have p: "io_bind (write_and_rename L ?s) (\<lambda>_.
                io_bind (set_cache ?s) (\<lambda>_.
                io_return (Success (old ! idx, ?s ! idx, ?s)))) w1 = (Return (Success x), w2)"
    by (simp add: Let_def)
  from read_posts_file_Return[OF r] persisted_then_cached[OF p] e i show ?thesis
    by auto
qed

lemma atomicDeletePost_Success:
  assumes "atomicDeletePost L pid w = (Return (Success x), w')"
  shows "\<exists>d old idx. files w POSTS_PATH = Some d \<and> JSON_parse L (or_default d ''[]'') = Some old \<and>
     findIndex (\<lambda>p. post_id p = pid) old = Some idx \<and>
     files w' POSTS_PATH = Some (JSON_stringify L (take idx old @ drop (Suc idx) old)) \<and>
     files w' (POSTS_PATH @ ''.sha256'')
       = Some (sha256_hex L (JSON_stringify L (take idx old @ drop (Suc idx) old))) \<and>
     postsCache w' = Some (take idx old @ drop (Suc idx) old)"
proof -
  from assms obtain fs w2 fs' where
    b: "io_bind (read_posts_file L) (\<lambda>posts.
        case findIndex (\<lambda>p. post_id p = pid) posts of
          None \<Rightarrow> io_return (Failure ''Post not found'')
        | Some idx \<Rightarrow>
            (let deleted = posts ! idx;
                 remaining = take idx posts @ drop (Suc idx) posts
             in io_bind (write_and_rename L remaining) (\<lambda>_.
                io_bind (set_cache remaining) (\<lambda>_.
                io_return (Success (deleted, remaining)))))) (w\<lparr>faults := fs\<rparr>) = (Return (Success x), w2)"
    and e: "w' = w2\<lparr>faults := fs'\<rparr>"
    unfolding atomicDeletePost_def by (rule with_posts_lock_Success)
  from b obtain old w1 where r: "read_posts_file L (w\<lparr>faults := fs\<rparr>) = (Return old, w1)"
    and c: "(case findIndex (\<lambda>p. post_id p = pid) old of
          None \<Rightarrow> io_return (Failure ''Post not found'')
        | Some idx \<Rightarrow>
            (let deleted = old ! idx;
                 remaining = take idx old @ drop (Suc idx) old
             in io_bind (write_and_rename L remaining) (\<lambda>_.
                io_bind (set_cache remaining) (\<lambda>_.
                io_return (Success (deleted, remaining)))))) w1 = (Return (Success x), w2)"
    by (elim io_bind_ReturnE)
  from c obtain idx where i: "findIndex (\<lambda>p. post_id p = pid) old = Some idx"
    by (cases "findIndex (\<lambda>p. post_id p = pid) old") (auto simp: io_return_def)
  let ?s = "take idx old @ drop (Suc idx) old"
  from c i have p: "io_bind (write_and_rename L ?s) (\<lambda>_.
                io_bind (set_cache ?s) (\<lambda>_.
                io_return (Success (old ! idx, ?s)))) w1 = (Return (Success x), w2)"
    by (simp add: Let_def)
  from read_posts_file_Return[OF r] persisted_then_cached[OF p] e i show ?thesis
    by auto
qed

lemma writePosts_failed_Throw: "writePosts_failed err w = (r, w') \<Longrightarrow> r = Throw err \<and> postsCache w' = None \<and> files w' = files w"
  by (auto simp: writePosts_failed_def invalidateCache_def io_defs)

lemma writePostsOptimized_Return:
  assumes "writePostsOptimized L D ps w = (Return u, w')"
  shows "files w' POSTS_PATH = Some (JSON_stringify L (sort_posts D ps)) \<and>
     files w' (POSTS_PATH @ ''.sha256'') = Some (sha256_hex L (JSON_stringify L (sort_posts D ps))) \<and>
     files w' (POSTS_PATH @ ''.backup'') = files w (POSTS_PATH @ ''.backup'') \<and>
     postsCache w' = Some (sort_posts D ps)"
proof -
  let ?s = "sort_posts D ps"
  from assms have n: "writeInProgress w = None"
    by (auto simp: writePostsOptimized_def split: option.splits)
  obtain r1 w1 where lk: "lockfile_lock POSTS_PATH w = (r1, w1)" by (cases "lockfile_lock POSTS_PATH w")
  obtain r2 w2 where bd: "io_catch (io_bind (write_and_rename L ?s) (\<lambda>_. set_cache ?s)) writePosts_failed w1 = (r2, w2)"
    by (cases "io_catch (io_bind (write_and_rename L ?s) (\<lambda>_. set_cache ?s)) writePosts_failed w1")
  obtain r3 w3 where rl: "release w2 = (r3, w3)" by (cases "release w2")
  from assms n lk bd rl have ok: "r1 = Return ()" "r2 = Return ()" "r3 = Return ()" "w' = w3\<lparr>writeInProgress := None\<rparr>"
    by (auto simp: writePostsOptimized_def Let_def split: outcome.splits dest: writePosts_failed_Throw)
  from bd ok obtain w1' where a: "write_and_rename L ?s w1 = (Return (), w1')" and c: "set_cache ?s w1' = (Return (), w2)"
    by (auto simp: io_catch_def io_bind_def split: prod.splits outcome.splits dest: writePosts_failed_Throw)
  from lk have "files w1 = files w" by (auto dest!: lock_any)
  with write_and_rename_Return[OF a] c rl ok show ?thesis
    by (auto simp: set_cache_def dest!: release_any)
qed

lemmas run_defs = io_defs syscall_def fault_def readFile_def writeFile_def appendFile_def copyFile_def
  rename_def unlink_def access_def mkdir_def lockfile_lock_def release_def

lemmas demo_defs = demo_lib_def table_lib_def show_posts_def show_post_def demo_digest_def demo_getTime_def
  world0_def world1_def post1_def post2_def POSTS_PATH_def digit_char_def toString_radix.simps

lemmas posts_defs = with_posts_lock_def read_posts_file_def JSON_parse_io_def or_default_def
  write_and_rename_def set_cache_def mutator_failed_def invalidateCache_def
  sort_posts_def Array_sort_def compare_posts_def time_minutes_def Number_def is_digit_def




section \<open>The backup file is written once and then left alone\<close>
















section \<open>The path of an id that is not in the collection\<close>


lemma findIndex_Some: "findIndex P xs = Some i \<Longrightarrow> i < length xs \<and> P (xs ! i)"
  by (induction xs arbitrary: i) (auto split: if_splits)




section \<open>The sort orders well-formed posts\<close>










section \<open>Runs in which the environment refuses nothing\<close>

lemma writePostsOptimized_no_faults:
  assumes "faults w = []" and "writeInProgress w = None"
  shows "fst (writePostsOptimized L D ps w) = Return () \<and> faults (snd (writePostsOptimized L D ps w)) = []"
  using assms
  by (simp add: writePostsOptimized_def write_and_rename_def set_cache_def run_defs Let_def POSTS_PATH_def)

lemma atomicCreatePost_no_faults:
  assumes "faults w = []" and "files w POSTS_PATH = Some d" and "JSON_parse L (or_default d ''[]'') = Some old"
  shows "succeeded (fst (atomicCreatePost L D np w))"
  using assms
  by (simp add: succeeded_def atomicCreatePost_def with_posts_lock_def read_posts_file_def JSON_parse_io_def
      write_and_rename_def set_cache_def run_defs Let_def POSTS_PATH_def)




section \<open>The serialisation of a log record\<close>

lemma digit_char_not_newline: "d < 36 \<Longrightarrow> digit_char d \<noteq> CHR 0x0A"
proof -
  assume "d < 36"
  then have "digit_char d \<in> set ''0123456789abcdefghijklmnopqrstuvwxyz''"
    unfolding digit_char_def by (intro nth_mem) simp
  then show ?thesis by auto
qed

lemma toString_radix_no_newline:
  "2 \<le> b \<Longrightarrow> b \<le> 36 \<Longrightarrow> CHR 0x0A \<notin> set (toString_radix b n)"
proof (induction b n rule: toString_radix.induct)
  case (1 b n)
  show ?case
  proof (cases "n < b")
    case True
    with 1 show ?thesis
      using digit_char_not_newline[of n] by (subst toString_radix.simps) auto
  next
    case False
    have "n mod b < b" using 1(2) by simp
    with 1(3) have "n mod b < 36" by simp
    with False 1 show ?thesis
      using digit_char_not_newline[of "n mod b"] by (subst toString_radix.simps) auto
  qed
qed

lemma show_int_no_newline: "CHR 0x0A \<notin> set (show_int i)"
  by (simp add: show_int_def toString_radix_no_newline)

lemma hex_digit_not_newline: "d < 16 \<Longrightarrow> hex_digit d \<noteq> CHR 0x0A"
proof -
  assume "d < 16"
  then have "hex_digit d \<in> set ''0123456789abcdef''"
    unfolding hex_digit_def by (intro nth_mem) simp
  then show ?thesis by auto
qed

lemma escape_char_no_newline: "CHR 0x0A \<notin> set (escape_char c)"
proof -
  have "(of_char c :: nat) < 32 \<Longrightarrow> (of_char c :: nat) div 16 < 16" by simp
  then show ?thesis
    using hex_digit_not_newline[of "of_char c div 16"] hex_digit_not_newline[of "of_char c mod 16"]
    by (auto simp: escape_char_def)
qed

lemma quote_no_newline: "CHR 0x0A \<notin> set (quote s)"
  using escape_char_no_newline by (auto simp: quote_def)

lemma join_with_no_newline:
  "c \<notin> set sep \<Longrightarrow> (\<And>x. x \<in> set xs \<Longrightarrow> c \<notin> set x) \<Longrightarrow> c \<notin> set (join_with sep xs)"
  by (induction sep xs rule: join_with.induct) auto

lemma stringify_no_newline: "CHR 0x0A \<notin> set (stringify v)"
proof (induction v)
  case (JArray vs)
  have "CHR 0x0A \<notin> set (join_with '','' (map stringify vs))"
    using JArray by (intro join_with_no_newline) auto
  then show ?case by simp
next
  case (JObject kvs)
  have "CHR 0x0A \<notin> set (join_with '','' (map (\<lambda>kv. quote (fst kv) @ '':'' @ snd kv) (map (map_prod id stringify) kvs)))"
  proof (rule join_with_no_newline)
    show "CHR 0x0A \<notin> set '',''" by simp
  next
    fix x assume "x \<in> set (map (\<lambda>kv. quote (fst kv) @ '':'' @ snd kv) (map (map_prod id stringify) kvs))"
    then obtain k v where kv: "(k, v) \<in> set kvs" and x: "x = quote k @ '':'' @ stringify v"
      by auto
    from JObject kv have "CHR 0x0A \<notin> set (stringify v)" by (auto simp: snds.simps)
    with x quote_no_newline[of k] show "CHR 0x0A \<notin> set x" by simp
  qed
  then show ?case by simp
qed (auto simp: quote_no_newline show_int_no_newline)

lemma map_of_set_property: "map_of (set_property t kv) = (map_of t)(fst kv \<mapsto> snd kv)"
  by (induction t) (auto simp: fun_eq_iff)

lemma map_of_Object_assign_absent:
  "k \<notin> fst ` set src \<Longrightarrow> map_of (Object_assign t src) k = map_of t k"
  unfolding Object_assign_def
  by (induction src arbitrary: t) (auto simp: map_of_set_property)

lemma map_of_Object_assign_present:
  "distinct (map fst src) \<Longrightarrow> (k, v) \<in> set src \<Longrightarrow> map_of (Object_assign t src) k = Some v"
  unfolding Object_assign_def
proof (induction src arbitrary: t)
  case Nil
  then show ?case by simp
next
  case (Cons kv src)
  show ?case
  proof (cases "(k, v) = kv")
    case True
    with Cons.prems have "k \<notin> fst ` set src" by force
    from map_of_Object_assign_absent[OF this, of "set_property t kv"] True show ?thesis
      by (auto simp: Object_assign_def map_of_set_property)
  next
    case False
    with Cons.prems have "distinct (map fst src)" "(k, v) \<in> set src" by simp_all
    from Cons.IH[OF this, of "set_property t kv"] show ?thesis by simp
  qed
qed

lemma ensureLogsFile_frame:
  "ensureLogsFile w = (r, w') \<Longrightarrow> r = Return () \<and> clock w' = clock w \<and> random w' = random w"
  by (auto simp: ensureLogsFile_def io_defs split: prod.splits outcome.splits
      dest!: mkdir_any access_any writeFile_Return writeFile_Throw)

lemma genId_depends: "clock a = clock b \<Longrightarrow> random a = random b \<Longrightarrow> fst (genId a) = fst (genId b)"
  by (auto simp: genId_def split: list.splits)

lemma genId_clock: "genId w = (g, w1) \<Longrightarrow> clock w1 = clock w"
  by (auto dest: genId_frame)

lemma appendLog_failed_result: "appendLog_failed e w = (r, w') \<Longrightarrow> r = Return None"
  by (auto simp: appendLog_failed_def io_defs)

lemma appendLog_release_frame: "appendLog_release w = (r, w') \<Longrightarrow> r = Return () \<and> files w' = files w"
  by (auto simp: appendLog_release_def io_defs split: prod.splits outcome.splits dest!: release_any)

lemma appendLog_cases:
  assumes run: "appendLog entry w = (r, w')"
  shows "r = Return None \<or>
    (r = Return (Some (log_record entry w)) \<and>
     (\<exists>old. files w' LOGS_ND_PATH = Some (old @ log_line (log_record entry w))))"
proof -
  obtain r0 w0 where e: "ensureLogsFile w = (r0, w0)" by (cases "ensureLogsFile w")
  note f0 = ensureLogsFile_frame[OF e]
  obtain gid w1 where g: "genId w0 = (gid, w1)" by (cases "genId w0")
  from g f0 have gid: "gid = fst (genId w)" using genId_depends[of w0 w] by simp
  have out: "Object_assign [(''id'', JString gid), (''time'', JNumber (int (clock w0)))] entry = log_record entry w"
    using gid f0 by (simp add: log_record_def)
  let ?out = "log_record entry w"
  let ?line = "stringify (JObject ?out) @ [CHR 0x0A]"
  obtain r2 w2 where l: "lockfile_lock LOGS_ND_PATH w1 = (r2, w2)" by (cases "lockfile_lock LOGS_ND_PATH w1")
  from run e f0 g out l have step: "(r, w') = (case r2 of
                Throw err \<Rightarrow> appendLog_failed err w2
              | Return _ \<Rightarrow>
                  io_finally
                    (io_catch
                       (io_bind (appendFile LOGS_ND_PATH ?line) (\<lambda>_. io_return (Some ?out)))
                       appendLog_failed)
                    appendLog_release w2)"
    by (simp add: appendLog_def io_bind_def Let_def split: outcome.splits)
  show ?thesis
  proof (cases r2)
    case (Throw err)
    with step show ?thesis by (auto dest: appendLog_failed_result[OF sym])
  next
    case (Return u)
    obtain r3 w3 where a: "appendFile LOGS_ND_PATH ?line w2 = (r3, w3)"
      by (cases "appendFile LOGS_ND_PATH ?line w2")
    obtain r4 w4 where c: "io_catch
                       (io_bind (appendFile LOGS_ND_PATH ?line) (\<lambda>_. io_return (Some ?out)))
                       appendLog_failed w2 = (r4, w4)"
      by (cases "io_catch (io_bind (appendFile LOGS_ND_PATH ?line) (\<lambda>_. io_return (Some ?out))) appendLog_failed w2")
    obtain r5 w5 where rl: "appendLog_release w4 = (r5, w5)" by (cases "appendLog_release w4")
    from appendLog_release_frame[OF rl] step Return c rl have fin: "r = r4" "files w' = files w4"
      by (auto simp: io_finally_def)
    show ?thesis
    proof (cases r3)
      case (Throw e3)
      with a c have "r4 = Return None"
        by (auto simp: io_catch_def io_bind_def dest: appendLog_failed_result)
      with fin show ?thesis by simp
    next
      case r3: (Return u3)
      with a c have "r4 = Return (Some ?out)" "w4 = w3"
        by (auto simp: io_catch_def io_bind_def io_return_def)
      moreover from a r3 have "\<exists>old. files w3 LOGS_ND_PATH = Some (old @ ?line)"
        by (auto dest!: appendFile_Return split: option.splits)
      ultimately show ?thesis using fin by (simp add: log_line_def)
    qed
  qed
qed

lemma appendLog_no_faults:
  "faults w = [] \<Longrightarrow> fst (appendLog entry w) = Return (Some (log_record entry w))"
  by (auto simp: appendLog_def ensureLogsFile_def appendLog_release_def log_record_def genId_def run_defs Let_def
      split: option.splits list.splits)

section \<open>The session table across a write\<close>










lemma writeJSON_no_faults:
  "faults w = [] \<Longrightarrow> fst (writeJSON L p d w) = Return ()"
  by (auto simp: writeJSON_def writeJSON_locked_def writeJSON_rename_def writeJSON_release_def genId_def
      run_defs Let_def split: list.splits option.splits)

lemma atomicUpdatePost_no_faults:
  assumes "faults w = []" and "files w POSTS_PATH = Some d" and "JSON_parse L (or_default d ''[]'') = Some old"
    and "findIndex (\<lambda>p. post_id p = pid) old = Some idx"
  shows "succeeded (fst (atomicUpdatePost L D pid f w))"
  using assms
  by (simp add: succeeded_def atomicUpdatePost_def with_posts_lock_def read_posts_file_def JSON_parse_io_def
      write_and_rename_def set_cache_def run_defs Let_def POSTS_PATH_def)

lemma atomicDeletePost_no_faults:
  assumes "faults w = []" and "files w POSTS_PATH = Some d" and "JSON_parse L (or_default d ''[]'') = Some old"
    and "findIndex (\<lambda>p. post_id p = pid) old = Some idx"
  shows "succeeded (fst (atomicDeletePost L pid w))"
  using assms
  by (simp add: succeeded_def atomicDeletePost_def with_posts_lock_def read_posts_file_def JSON_parse_io_def
      write_and_rename_def set_cache_def run_defs Let_def POSTS_PATH_def)

section \<open>Verified properties\<close>

text \<open>
  C1. After a write of a document returns successfully (\<open>writeJSON\<close>,
  \<open>writePostsOptimized\<close>, \<open>atomicCreatePost\<close>, \<open>atomicUpdatePost\<close>, \<open>atomicDeletePost\<close>),
  whatever the state before it and whatever the environment imposed during it, the
  digest file holds the SHA-256 of the bytes of the document. The state before is
  arbitrary, so the same holds after each write of any sequence of writes.
\<close>

theorem C1_digest_matches_after_completed_write:
  "(fst (writeJSON L p d w) = Return () \<longrightarrow> digest_matches L p (snd (writeJSON L p d w))) \<and>
   (fst (writePostsOptimized P D ps w) = Return ()
      \<longrightarrow> digest_matches P POSTS_PATH (snd (writePostsOptimized P D ps w))) \<and>
   (succeeded (fst (atomicCreatePost P D np w))
      \<longrightarrow> digest_matches P POSTS_PATH (snd (atomicCreatePost P D np w))) \<and>
   (succeeded (fst (atomicUpdatePost P D pid f w))
      \<longrightarrow> digest_matches P POSTS_PATH (snd (atomicUpdatePost P D pid f w))) \<and>
   (succeeded (fst (atomicDeletePost P pid w))
      \<longrightarrow> digest_matches P POSTS_PATH (snd (atomicDeletePost P pid w)))"
proof (intro conjI impI)
  assume "fst (writeJSON L p d w) = Return ()"
  then have "writeJSON L p d w = (Return (), snd (writeJSON L p d w))"
    by (metis prod.collapse)
  from writeJSON_Return[OF this] show "digest_matches L p (snd (writeJSON L p d w))"
    by (auto intro: digest_matchesI)
next
  assume "fst (writePostsOptimized P D ps w) = Return ()"
  then have "writePostsOptimized P D ps w = (Return (), snd (writePostsOptimized P D ps w))"
    by (metis prod.collapse)
  from writePostsOptimized_Return[OF this]
  show "digest_matches P POSTS_PATH (snd (writePostsOptimized P D ps w))"
    by (auto intro: digest_matchesI)
next
  assume "succeeded (fst (atomicCreatePost P D np w))"
  then obtain x where "atomicCreatePost P D np w = (Return (Success x), snd (atomicCreatePost P D np w))"
    by (cases "atomicCreatePost P D np w") (auto simp: succeeded_def split: outcome.splits result.splits)
  from atomicCreatePost_Success[OF this]
  show "digest_matches P POSTS_PATH (snd (atomicCreatePost P D np w))"
    by (auto intro: digest_matchesI)
next
  assume "succeeded (fst (atomicUpdatePost P D pid f w))"
  then obtain x where "atomicUpdatePost P D pid f w = (Return (Success x), snd (atomicUpdatePost P D pid f w))"
    by (cases "atomicUpdatePost P D pid f w") (auto simp: succeeded_def split: outcome.splits result.splits)
  from atomicUpdatePost_Success[OF this]
  show "digest_matches P POSTS_PATH (snd (atomicUpdatePost P D pid f w))"
    by (auto intro: digest_matchesI)
next
  assume "succeeded (fst (atomicDeletePost P pid w))"
  then obtain x where "atomicDeletePost P pid w = (Return (Success x), snd (atomicDeletePost P pid w))"
    by (cases "atomicDeletePost P pid w") (auto simp: succeeded_def split: outcome.splits result.splits)
  from atomicDeletePost_Success[OF this]
  show "digest_matches P POSTS_PATH (snd (atomicDeletePost P pid w))"
    by (auto intro: digest_matchesI)
qed

theorem C1_digest_matches_witness:
  "fst (writeJSON demo_lib ''db/lists.json'' [post1] world0) = Return () \<and>
   digest_matches demo_lib ''db/lists.json'' (snd (writeJSON demo_lib ''db/lists.json'' [post1] world0)) \<and>
   fst (writePostsOptimized demo_lib demo_getTime [post1] world0) = Return () \<and>
   digest_matches demo_lib POSTS_PATH (snd (writePostsOptimized demo_lib demo_getTime [post1] world0)) \<and>
   succeeded (fst (atomicCreatePost demo_lib demo_getTime post2 world1)) \<and>
   digest_matches demo_lib POSTS_PATH (snd (atomicCreatePost demo_lib demo_getTime post2 world1)) \<and>
   succeeded (fst (atomicUpdatePost demo_lib demo_getTime ''1'' (\<lambda>p. p\<lparr>title := ''moved''\<rparr>) world1)) \<and>
   digest_matches demo_lib POSTS_PATH
     (snd (atomicUpdatePost demo_lib demo_getTime ''1'' (\<lambda>p. p\<lparr>title := ''moved''\<rparr>) world1)) \<and>
   succeeded (fst (atomicDeletePost demo_lib ''1'' world1)) \<and>
   digest_matches demo_lib POSTS_PATH (snd (atomicDeletePost demo_lib ''1'' world1))"
proof -
  have f0: "faults world0 = []" "writeInProgress world0 = None" by (simp_all add: world0_def)
  have f1: "faults world1 = []" "files world1 POSTS_PATH = Some (show_posts [post1])"
    by (simp_all add: world1_def world0_def)
  have pr: "JSON_parse demo_lib (or_default (show_posts [post1]) ''[]'') = Some [post1]"
    by (simp add: or_default_def demo_defs)
  have ix: "findIndex (\<lambda>p. post_id p = ''1'') [post1] = Some 0" by (simp add: post1_def)
  have a: "fst (writeJSON demo_lib ''db/lists.json'' [post1] world0) = Return ()"
    using f0(1) by (rule writeJSON_no_faults)
  have b: "fst (writePostsOptimized demo_lib demo_getTime [post1] world0) = Return ()"
    using writePostsOptimized_no_faults[OF f0] by simp
  have c: "succeeded (fst (atomicCreatePost demo_lib demo_getTime post2 world1))"
    using f1 pr by (rule atomicCreatePost_no_faults)
  have d: "succeeded (fst (atomicUpdatePost demo_lib demo_getTime ''1'' (\<lambda>p. p\<lparr>title := ''moved''\<rparr>) world1))"
    using f1 pr ix by (rule atomicUpdatePost_no_faults)
  have e: "succeeded (fst (atomicDeletePost demo_lib ''1'' world1))"
    using f1 pr ix by (rule atomicDeletePost_no_faults)
  note T0 = C1_digest_matches_after_completed_write[where w = world0 and L = demo_lib
      and p = "''db/lists.json''" and d = "[post1]" and P = demo_lib and D = demo_getTime and ps = "[post1]"
      and np = post2 and pid = "''1''" and f = "\<lambda>p. p\<lparr>title := ''moved''\<rparr>"]
  note T1 = C1_digest_matches_after_completed_write[where w = world1 and L = demo_lib
      and p = "''db/lists.json''" and d = "[post1]" and P = demo_lib and D = demo_getTime and ps = "[post1]"
      and np = post2 and pid = "''1''" and f = "\<lambda>p. p\<lparr>title := ''moved''\<rparr>"]
  from a b c d e T0 T1 show ?thesis by blast
qed







text \<open>
  C2. In a store where the primary file and a backup that parses exist and
  the environment refuses no read: if the digest file is present and, trimmed, differs from
  the digest of the primary's bytes, \<open>readJSON\<close> returns the parsed backup and logs the
  corruption; if the digest file is absent or matches, \<open>readJSON\<close> parses the primary, and
  a primary that does not parse makes it raise the syntax error: there is no fallback to
  the backup on a parse failure.
\<close>

theorem C2_readJSON_backup_on_digest_mismatch_only:
  assumes "faults w = []"
    and "files w p = Some data"
    and "files w (p @ ''.backup'') = Some b"
    and "JSON_parse L (or_default b ''null'') = Some v"
  shows "(\<forall>stored. files w (p @ ''.sha256'') = Some stored \<and> trim stored \<noteq> sha256_hex L data
            \<longrightarrow> fst (readJSON L p w) = Return (Some v) \<and>
                (''CHECKSUM MISMATCH for '' @ p @ ''! Data may be corrupted.'') \<in> set (console (snd (readJSON L p w)))) \<and>
         ((files w (p @ ''.sha256'') = None \<or> map_option trim (files w (p @ ''.sha256'')) = Some (sha256_hex L data))
            \<longrightarrow> fst (readJSON L p w) =
                  (case JSON_parse L (or_default data ''null'') of
                     None \<Rightarrow> Throw SyntaxError | Some v' \<Rightarrow> Return (Some v')))"
  using assms
  by (auto simp: readJSON_def readJSON_verify_def readJSON_backup_def JSON_parse_io_def run_defs
      split: option.splits)

theorem C2_readJSON_witness:
  "fst (readJSON demo_lib ''db/lists.json'' world_digest_mismatch) = Return (Some [post1]) \<and>
   ''CHECKSUM MISMATCH for db/lists.json! Data may be corrupted.''
      \<in> set (console (snd (readJSON demo_lib ''db/lists.json'' world_digest_mismatch))) \<and>
   fst (readJSON demo_lib ''db/lists.json'' world_unparseable) = Throw SyntaxError"
proof -
  have t: "trim ''0000'' = ''0000''" by (simp add: trim_def is_space_def)
  have m: "files world_digest_mismatch (''db/lists.json'' @ ''.sha256'') = Some ''0000'' \<and>
      trim ''0000'' \<noteq> sha256_hex demo_lib (show_posts [post2, post1])"
    unfolding t by (simp add: world_digest_mismatch_def demo_defs)
  have u: "files world_unparseable (''db/lists.json'' @ ''.sha256'') = None"
    by (simp add: world_unparseable_def world0_def)
  have pu: "JSON_parse demo_lib (or_default ''[{id:1,da'' ''null'') = None"
    by (simp add: or_default_def demo_defs)
  have pb: "JSON_parse demo_lib (or_default (show_posts [post1]) ''null'') = Some [post1]"
    by (simp add: or_default_def demo_defs)
  note A = C2_readJSON_backup_on_digest_mismatch_only[where w = world_digest_mismatch and L = demo_lib
      and p = "''db/lists.json''" and data = "show_posts [post2, post1]" and b = "show_posts [post1]" and v = "[post1]"]
  note B = C2_readJSON_backup_on_digest_mismatch_only[where w = world_unparseable and L = demo_lib
      and p = "''db/lists.json''" and data = "''[{id:1,da''" and b = "show_posts [post1]" and v = "[post1]"]
  have A': "fst (readJSON demo_lib ''db/lists.json'' world_digest_mismatch) = Return (Some [post1]) \<and>
   ''CHECKSUM MISMATCH for db/lists.json! Data may be corrupted.''
      \<in> set (console (snd (readJSON demo_lib ''db/lists.json'' world_digest_mismatch)))"
    using A m pb by (simp add: world_digest_mismatch_def world0_def)
  have B': "fst (readJSON demo_lib ''db/lists.json'' world_unparseable) = Throw SyntaxError"
    using B u pu pb by (simp add: world_unparseable_def world0_def)
  from A' B' show ?thesis by simp
qed

theorem C2_parse_failure_no_fallback_counterexample:
  "files world_unparseable ''db/lists.json.backup'' = Some (show_posts [post1]) \<and>
   JSON_parse demo_lib (show_posts [post1]) = Some [post1] \<and>
   JSON_parse demo_lib (the (files world_unparseable ''db/lists.json'')) = None \<and>
   fst (readJSON demo_lib ''db/lists.json'' world_unparseable) = Throw SyntaxError"
  by (simp add: readJSON_def readJSON_verify_def readJSON_backup_def JSON_parse_io_def or_default_def run_defs
      world_unparseable_def demo_defs)




text \<open>
  C10. With an empty cache, when the collection file does not exist \<open>readPostsOptimized\<close>
  returns the empty array and caches it, where the generic \<open>readJSON\<close> returns \<open>null\<close>;
  a read that fails with any other error, and a file that does not parse, make it throw
  that error and leave the cache empty.
\<close>

theorem C10_missing_posts_file_reads_as_empty:
  assumes "postsCache w = None"
  shows "(files w POSTS_PATH = None \<and> faults w = [] \<longrightarrow>
            fst (readPostsOptimized L w) = Return [] \<and>
            postsCache (snd (readPostsOptimized L w)) = Some [] \<and>
            fst (readJSON L POSTS_PATH w) = Return None) \<and>
         (\<forall>e. fst (readFile POSTS_PATH w) = Throw e \<and> e \<noteq> ENOENT \<longrightarrow>
            fst (readPostsOptimized L w) = Throw e \<and>
            postsCache (snd (readPostsOptimized L w)) = None) \<and>
         (\<forall>d. files w POSTS_PATH = Some d \<and> faults w = [] \<and> JSON_parse L (or_default d ''[]'') = None \<longrightarrow>
            fst (readPostsOptimized L w) = Throw SyntaxError \<and>
            postsCache (snd (readPostsOptimized L w)) = None)"
proof (intro conjI allI impI)
  assume "files w POSTS_PATH = None \<and> faults w = []"
  with assms show "fst (readPostsOptimized L w) = Return []"
    "postsCache (snd (readPostsOptimized L w)) = Some []"
    "fst (readJSON L POSTS_PATH w) = Return None"
    by (simp_all add: readPostsOptimized_def read_posts_file_def readJSON_def run_defs)
next
  fix e assume a: "fst (readFile POSTS_PATH w) = Throw e \<and> e \<noteq> ENOENT"
  then obtain w1 where r: "readFile POSTS_PATH w = (Throw e, w1)"
    by (cases "readFile POSTS_PATH w") auto
  then obtain fs where "w1 = w\<lparr>faults := fs\<rparr>" by (auto dest: readFile_Throw)
  with assms a r show "fst (readPostsOptimized L w) = Throw e"
    "postsCache (snd (readPostsOptimized L w)) = None"
    by (simp_all add: readPostsOptimized_def read_posts_file_def io_defs)
next
  fix d assume "files w POSTS_PATH = Some d \<and> faults w = [] \<and> JSON_parse L (or_default d ''[]'') = None"
  with assms show "fst (readPostsOptimized L w) = Throw SyntaxError"
    "postsCache (snd (readPostsOptimized L w)) = None"
    by (simp_all add: readPostsOptimized_def read_posts_file_def JSON_parse_io_def run_defs)
qed

theorem C10_missing_posts_file_witness:
  "fst (readPostsOptimized demo_lib world0) = Return [] \<and>
   postsCache (snd (readPostsOptimized demo_lib world0)) = Some [] \<and>
   fst (readJSON demo_lib POSTS_PATH world0) = Return None \<and>
   fst (readPostsOptimized demo_lib (world0\<lparr>faults := [Some EIO]\<rparr>)) = Throw EIO \<and>
   postsCache (snd (readPostsOptimized demo_lib (world0\<lparr>faults := [Some EIO]\<rparr>))) = None"
proof -
  have a: "postsCache world0 = None" "files world0 POSTS_PATH = None \<and> faults world0 = []"
    by (simp_all add: world0_def)
  have b: "postsCache (world0\<lparr>faults := [Some EIO]\<rparr>) = None"
    "fst (readFile POSTS_PATH (world0\<lparr>faults := [Some EIO]\<rparr>)) = Throw EIO \<and> EIO \<noteq> ENOENT"
    by (simp_all add: world0_def run_defs)
  from C10_missing_posts_file_reads_as_empty[OF a(1), of demo_lib] a(2)
    C10_missing_posts_file_reads_as_empty[OF b(1), of demo_lib] b(2)
  show ?thesis by blast
qed

lemma writePostsOptimized_failure_invalidates_or_release_failed:
  assumes run: "writePostsOptimized L D ps w = (Throw e, w')" and idle: "writeInProgress w = None"
  shows "postsCache w' = None \<or> writeInProgress w' = Some e"
proof -
  let ?s = "sort_posts D ps"
  obtain r1 w1 where lk: "lockfile_lock POSTS_PATH w = (r1, w1)" by (cases "lockfile_lock POSTS_PATH w")
  show ?thesis
  proof (cases r1)
    case (Throw err)
    with run idle lk show ?thesis
      by (auto simp: writePostsOptimized_def Let_def dest: writePosts_failed_Throw)
  next
    case (Return u)
    obtain r2 w2 where bd: "io_catch (io_bind (write_and_rename L ?s) (\<lambda>_. set_cache ?s)) writePosts_failed w1 = (r2, w2)"
      by (cases "io_catch (io_bind (write_and_rename L ?s) (\<lambda>_. set_cache ?s)) writePosts_failed w1")
    obtain r3 w3 where rl: "release w2 = (r3, w3)" by (cases "release w2")
    then obtain fs where w3: "w3 = w2\<lparr>faults := fs\<rparr>" by (auto dest: release_any)
    show ?thesis
    proof (cases r3)
      case (Throw e3)
      with run idle lk Return bd rl show ?thesis
        by (auto simp: writePostsOptimized_def Let_def)
    next
      case r3: (Return u3)
      with run idle lk Return bd rl have e: "r2 = Throw e" "w' = w3\<lparr>writeInProgress := None\<rparr>"
        by (auto simp: writePostsOptimized_def Let_def)
      with bd have "postsCache w2 = None"
        by (auto simp: io_catch_def io_bind_def set_cache_def split: prod.splits outcome.splits
            dest: writePosts_failed_Throw)
      with e w3 show ?thesis by simp
    qed
  qed
qed

lemma mutator_failure_invalidates:
  assumes run: "with_posts_lock body w = (Return (Failure m), w')"
    and body: "\<And>w1 w2. body w1 = (Return (Failure m), w2) \<Longrightarrow> False"
  shows "postsCache w' = None"
  using run
  by (auto simp: with_posts_lock_def io_finally_def io_catch_def mutator_failed_def invalidateCache_def
      split: prod.splits outcome.splits dest!: lock_any release_any dest: body)

lemma atomicCreatePost_failure_invalidates:
  assumes "atomicCreatePost L D np w = (Return (Failure m), w')"
  shows "postsCache w' = None"
  using assms unfolding atomicCreatePost_def
proof (rule mutator_failure_invalidates)
  fix w1 w2
  assume "io_bind (read_posts_file L) (\<lambda>posts.
        (let sorted = sort_posts D (posts @ [np])
         in io_bind (write_and_rename L sorted) (\<lambda>_.
            io_bind (set_cache sorted) (\<lambda>_.
            io_return (Success (np, sorted)))))) w1 = (Return (Failure m), w2)"
  then show False
    by (elim io_bind_ReturnE) (auto simp: Let_def io_return_def elim!: io_bind_ReturnE)
qed

lemma atomicUpdatePost_failure_invalidates:
  assumes "atomicUpdatePost L D pid f w = (Return (Failure m), w')" and "m \<noteq> ''Post not found''"
  shows "postsCache w' = None"
  using assms(1) unfolding atomicUpdatePost_def
proof (rule mutator_failure_invalidates)
  fix w1 w2
  assume "io_bind (read_posts_file L) (\<lambda>posts.
        case findIndex (\<lambda>p. post_id p = pid) posts of
          None \<Rightarrow> io_return (Failure ''Post not found'')
        | Some idx \<Rightarrow>
            (let oldPost = posts ! idx;
                 sorted = sort_posts D (posts[idx := f (posts ! idx)])
             in io_bind (write_and_rename L sorted) (\<lambda>_.
                io_bind (set_cache sorted) (\<lambda>_.
                io_return (Success (oldPost, sorted ! idx, sorted)))))) w1 = (Return (Failure m), w2)"
  with assms(2) show False
    by (elim io_bind_ReturnE) (auto simp: Let_def io_return_def split: option.splits elim!: io_bind_ReturnE)
qed

lemma atomicDeletePost_failure_invalidates:
  assumes "atomicDeletePost L pid w = (Return (Failure m), w')" and "m \<noteq> ''Post not found''"
  shows "postsCache w' = None"
  using assms(1) unfolding atomicDeletePost_def
proof (rule mutator_failure_invalidates)
  fix w1 w2
  assume "io_bind (read_posts_file L) (\<lambda>posts.
        case findIndex (\<lambda>p. post_id p = pid) posts of
          None \<Rightarrow> io_return (Failure ''Post not found'')
        | Some idx \<Rightarrow>
            (let deleted = posts ! idx;
                 remaining = take idx posts @ drop (Suc idx) posts
             in io_bind (write_and_rename L remaining) (\<lambda>_.
                io_bind (set_cache remaining) (\<lambda>_.
                io_return (Success (deleted, remaining)))))) w1 = (Return (Failure m), w2)"
  with assms(2) show False
    by (elim io_bind_ReturnE) (auto simp: Let_def io_return_def split: option.splits elim!: io_bind_ReturnE)
qed

text \<open>
  C4. Every failing write is to leave the cache invalidated. The writers do so for
  every failure inside their \<open>try\<close> block, but they await \<open>release()\<close> unguarded in
  \<open>finally\<close>: when the release of the lock is refused after a write that reached the disk,
  \<open>writePostsOptimized\<close> rejects while the cache holds the collection it wrote, the next
  read is served from that cache, and the rejected promise stays in \<open>writeInProgress\<close>, so
  that the next write rejects at once, again without invalidating the cache.
\<close>

theorem C4_release_failure_keeps_cache:
  "fst (writePostsOptimized demo_lib demo_getTime [post2, post1] world_release_refused) = Throw ERELEASED \<and>
   postsCache (snd (writePostsOptimized demo_lib demo_getTime [post2, post1] world_release_refused))
     = Some [post2, post1] \<and>
   fst (readPostsOptimized demo_lib
         (snd (writePostsOptimized demo_lib demo_getTime [post2, post1] world_release_refused)))
     = Return [post2, post1] \<and>
   writeInProgress (snd (writePostsOptimized demo_lib demo_getTime [post2, post1] world_release_refused))
     = Some ERELEASED \<and>
   fst (writePostsOptimized demo_lib demo_getTime [post1]
         (snd (writePostsOptimized demo_lib demo_getTime [post2, post1] world_release_refused)))
     = Throw ERELEASED \<and>
   postsCache (snd (writePostsOptimized demo_lib demo_getTime [post1]
         (snd (writePostsOptimized demo_lib demo_getTime [post2, post1] world_release_refused))))
     = Some [post2, post1]"
proof -
  let ?w = "snd (writePostsOptimized demo_lib demo_getTime [post2, post1] world_release_refused)"
  have "case writePostsOptimized demo_lib demo_getTime [post2, post1] world_release_refused of
      (r, w') \<Rightarrow> r = Throw ERELEASED \<and> postsCache w' = Some [post2, post1] \<and> writeInProgress w' = Some ERELEASED"
    by (simp add: writePostsOptimized_def posts_defs run_defs world_release_refused_def demo_defs Let_def)
  then have a: "fst (writePostsOptimized demo_lib demo_getTime [post2, post1] world_release_refused) = Throw ERELEASED"
    and b: "postsCache ?w = Some [post2, post1]" and c: "writeInProgress ?w = Some ERELEASED"
    by (simp_all add: case_prod_beta)
  from b have d: "fst (readPostsOptimized demo_lib ?w) = Return [post2, post1]"
    by (simp add: readPostsOptimized_def)
  from c have e: "writePostsOptimized demo_lib demo_getTime [post1] ?w = (Throw ERELEASED, ?w)"
    by (simp add: writePostsOptimized_def)
  from a b c d e show ?thesis by simp
qed





text \<open>
  C8. \<open>appendLog\<close> never throws: it returns \<open>null\<close> after a failure and
  otherwise the record it appended, which is the entry's own fields laid over a generated
  id and the current server time. A field \<open>id\<close> or \<open>time\<close> supplied in the entry replaces
  the generated one; an entry without them carries the id produced by \<open>genId\<close> and the
  timestamp taken by \<open>appendLog\<close>. The record is appended as exactly one line: its
  serialisation holds no line feed and is followed by one.
\<close>

theorem C8_log_record_entry_over_generated_fields:
  "(fst (appendLog entry w) = Return None \<or> fst (appendLog entry w) = Return (Some (log_record entry w))) \<and>
   (faults w = [] \<longrightarrow> fst (appendLog entry w) = Return (Some (log_record entry w))) \<and>
   (fst (appendLog entry w) = Return (Some (log_record entry w)) \<longrightarrow>
      (\<exists>old. files (snd (appendLog entry w)) LOGS_ND_PATH = Some (old @ log_line (log_record entry w)))) \<and>
   CHR 0x0A \<notin> set (stringify (JObject (log_record entry w))) \<and>
   log_line (log_record entry w) = stringify (JObject (log_record entry w)) @ [CHR 0x0A] \<and>
   (''id'' \<notin> fst ` set entry \<longrightarrow> map_of (log_record entry w) ''id'' = Some (JString (fst (genId w)))) \<and>
   (''time'' \<notin> fst ` set entry \<longrightarrow> map_of (log_record entry w) ''time'' = Some (JNumber (int (clock w)))) \<and>
   (\<forall>k v. distinct (map fst entry) \<and> (k, v) \<in> set entry \<longrightarrow> map_of (log_record entry w) k = Some v)"
proof -
  obtain r w' where run: "appendLog entry w = (r, w')" by (cases "appendLog entry w")
  from appendLog_cases[OF run] run
  have A: "fst (appendLog entry w) = Return None \<or> fst (appendLog entry w) = Return (Some (log_record entry w))"
    and B: "fst (appendLog entry w) = Return (Some (log_record entry w)) \<longrightarrow>
      (\<exists>old. files (snd (appendLog entry w)) LOGS_ND_PATH = Some (old @ log_line (log_record entry w)))"
    by auto
  have C: "faults w = [] \<longrightarrow> fst (appendLog entry w) = Return (Some (log_record entry w))"
    by (simp add: appendLog_no_faults)
  have D: "''id'' \<notin> fst ` set entry \<longrightarrow> map_of (log_record entry w) ''id'' = Some (JString (fst (genId w)))"
    "''time'' \<notin> fst ` set entry \<longrightarrow> map_of (log_record entry w) ''time'' = Some (JNumber (int (clock w)))"
    by (simp_all add: log_record_def map_of_Object_assign_absent)
  have E: "\<forall>k v. distinct (map fst entry) \<and> (k, v) \<in> set entry \<longrightarrow> map_of (log_record entry w) k = Some v"
    by (simp add: log_record_def map_of_Object_assign_present)
  from A B C D E stringify_no_newline[of "JObject (log_record entry w)"] show ?thesis
    by (simp add: log_line_def)
qed

theorem C8_log_record_witness:
  "fst (appendLog entry_plain world0)
     = Return (Some [(''id'', JString ''mjw3xmo0-k3x9qa''), (''time'', JNumber 1767312000000),
                     (''type'', JString ''post''), (''action'', JString ''create'')]) \<and>
   map_of (log_record entry_plain world0) ''id'' = Some (JString (fst (genId world0))) \<and>
   map_of (log_record entry_plain world0) ''time'' = Some (JNumber (int (clock world0))) \<and>
   map_of (log_record entry_plain world0) ''action'' = Some (JString ''create'') \<and>
   (\<exists>old. files (snd (appendLog entry_plain world0)) LOGS_ND_PATH
      = Some (old @ log_line (log_record entry_plain world0)))"
proof -
  have a: "faults world0 = []" by (simp add: world0_def)
  have b: "''id'' \<notin> fst ` set entry_plain" "''time'' \<notin> fst ` set entry_plain"
    "distinct (map fst entry_plain) \<and> (''action'', JString ''create'') \<in> set entry_plain"
    by (simp_all add: entry_plain_def)
  have c: "log_record entry_plain world0
     = [(''id'', JString ''mjw3xmo0-k3x9qa''), (''time'', JNumber 1767312000000),
        (''type'', JString ''post''), (''action'', JString ''create'')]"
    by (simp add: log_record_def Object_assign_def entry_plain_def genId_def world0_def
        toString_radix.simps digit_char_def)
  note T = C8_log_record_entry_over_generated_fields[of entry_plain world0]
  from T a have r: "fst (appendLog entry_plain world0) = Return (Some (log_record entry_plain world0))"
    by blast
  with T b show ?thesis unfolding c[symmetric] by blast
qed

theorem C8_caller_time_wins_counterexample:
  "fst (appendLog entry_with_time world0)
     = Return (Some [(''id'', JString ''mjw3xmo0-k3x9qa''), (''time'', JNumber 5), (''type'', JString ''post'')]) \<and>
   clock world0 = 1767312000000"
proof -
  have "log_record entry_with_time world0
     = [(''id'', JString ''mjw3xmo0-k3x9qa''), (''time'', JNumber 5), (''type'', JString ''post'')]"
    by (simp add: log_record_def Object_assign_def entry_with_time_def genId_def world0_def
        toString_radix.simps digit_char_def)
  then show ?thesis
    using appendLog_no_faults[of world0 entry_with_time] by (simp add: world0_def)
qed






end
